theory Spec2Isabelle
  imports Complex_Main "HOL-Library.Multiset"
begin

section \<open>The primary server and the simulation worker of the O2 simulation\<close>

text \<open>
  This theory embeds two FairMQ devices: \<^verbatim>\<open>O2PrimaryServerDevice\<close> (the producer, which
  generates events and hands them out in chunks of primaries) and \<^verbatim>\<open>O2SimDevice\<close> (the
  worker, which asks for chunks and transports them).

  Modelling decisions, valid for the whole theory:
  \<^item> The platform is LP64: \<^verbatim>\<open>int\<close> has 32 bits, \<^verbatim>\<open>size_t\<close> has 64 bits. Integers of the
    source are HOL integers, and every conversion of the source is written out:
    \<open>to_int32\<close> is the two's complement reduction to an \<^verbatim>\<open>int\<close>, \<open>to_size_t\<close> the
    reduction modulo \<open>2 ^ 64\<close>. Signed arithmetic that leaves the range of \<^verbatim>\<open>int\<close> is
    undefined in C++; the model takes the wrapped value there.
  \<^item> Transport (FairMQ channels) and serialisation (TMessage) are outside the model: a
    send is represented by the message handed to \<^verbatim>\<open>Send\<close> and by its return code, a
    receive by its return code and the decoded payload.
  \<^item> The generator thread is represented by its effect at the join: the serving path reads
    the stack only after joining the thread, so \<open>generateEvent\<close> is applied where the
    thread is launched. The handle \<^verbatim>\<open>mGeneratorThread\<close> is a flag that says whether it is
    joinable: launching a thread sets it, joining clears it, and assigning a new thread to
    a handle that is still joinable calls \<^verbatim>\<open>std::terminate\<close>, which is the error
    \<open>Terminate\<close>.
  \<^item> The external event generator is an oracle \<open>gen\<close>: \<open>gen k\<close> is the list of primaries
    and the event header produced by the \<open>k\<close>-th call of \<^verbatim>\<open>GenerateEvent\<close>.
\<close>

subsection \<open>Machine integers\<close>

definition INT_MAX :: int where
  "INT_MAX = 2147483647"

definition to_int32 :: "int \<Rightarrow> int" where
  "to_int32 x = (x + 2147483648) mod 4294967296 - 2147483648"

definition to_size_t :: "int \<Rightarrow> int" where
  "to_size_t x = x mod 18446744073709551616"

text \<open>
  The conversion \<^verbatim>\<open>(int)\<close> of a double whose value is the integer \<open>c\<close>. Outside the
  range of \<^verbatim>\<open>int\<close> the conversion is undefined in C++; the model takes \<open>- 2 ^ 31\<close>
  there, the value the conversion instruction of the x86 yields.
\<close>

definition double_to_int :: "int \<Rightarrow> int" where
  "double_to_int c = (if - 2147483648 \<le> c \<and> c \<le> INT_MAX then c else - 2147483648)"

subsection \<open>Data model\<close>

text \<open>
  Modelled from the spec: the enumeration \<^verbatim>\<open>O2PrimaryServerState\<close> is declared in
  \<^verbatim>\<open>PrimaryServerState.h\<close>, a header that both devices include. The spec lists its
  values as Initializing, WaitingEvent, ReadyToServe, Idle, Stopped. The integer value of
  each enumerator is not fixed here; the worker takes it as the parameter \<open>enc\<close>.
\<close>

datatype O2PrimaryServerState = Initializing | WaitingEvent | ReadyToServe | Idle | Stopped

text \<open>The fields of \<^verbatim>\<open>SimConfigData\<close> that the server device writes.\<close>

record SimConfigData =
  mGenerator :: string
  mTrigger :: string
  mExtKinFileName :: string

record SimReconfigData =
  stop :: bool
  configFile :: string
  keyValueTokens :: string
  startSeed :: int
  nEvents :: int
  generator :: string
  trigger :: string
  extKinfileName :: string

record 'h SubEventInfo =
  eventID :: int
  maxEvents :: int
  part :: int
  nparts :: int
  seed :: int
  index :: int
  mMCEventHeader :: 'h

record ('p, 'h) PrimaryChunk =
  mSubEventInfo :: "'h SubEventInfo"
  mParticles :: "'p list"

text \<open>What the server hands to \<^verbatim>\<open>Send\<close> on the channel \<^verbatim>\<open>primary-get\<close>.\<close>

datatype ('p, 'h) reply = ConfigReply SimConfigData | ChunkReply "('p, 'h) PrimaryChunk"

text \<open>
  The members of \<^verbatim>\<open>O2PrimaryServerDevice\<close>. A generator instance is a number (its
  address); \<open>None\<close> is the null pointer; \<open>mGeneratorThread\<close> holds whether the
  thread handle is joinable. Three fields belong to the model only:
  \<open>nInstances\<close> counts the generator instances constructed so far (the next fresh
  address), \<open>nGenerated\<close> counts the calls of \<^verbatim>\<open>GenerateEvent\<close>, and \<open>pipeOut\<close> lists
  the event numbers written to the driver pipe.
\<close>

record ('p, 'h) server =
  mSimConfig :: SimConfigData
  mPrimGen :: "nat option"
  mEventHeader :: 'h
  mStack :: "'p list"
  mChunkGranularity :: int
  mPartCounter :: int
  mNeedNewEvent :: bool
  mMaxEvents :: int
  mInitialSeed :: int
  mPipeToDriver :: int
  mEventCounter :: int
  mGeneratorThread :: bool
  mPrimGeneratorCache :: "string \<rightharpoonup> nat"
  mState :: O2PrimaryServerState
  mAsService :: bool
  nInstances :: nat
  nGenerated :: nat
  pipeOut :: "int list"

datatype error = OutOfRange | Terminate

subsection \<open>The server: generator set-up and event generation\<close>

definition generateEvent :: "(nat \<Rightarrow> 'p list \<times> 'h) \<Rightarrow> ('p, 'h) server \<Rightarrow> ('p, 'h) server" where
  "generateEvent gen s =
     s\<lparr>mState := ReadyToServe,
       mStack := fst (gen (nGenerated s)),
       mEventHeader := snd (gen (nGenerated s)),
       nGenerated := Suc (nGenerated s)\<rparr>"

text \<open>
  \<^verbatim>\<open>initGenerator\<close>: the guard of the cache lookup is the source's
  \<^verbatim>\<open>compare("extkin") != 0 || compare("extkinO2") != 0\<close>. Constructing a generator is
  taking the next fresh address; the set-up of the magnetic field, the embedding file and
  the generator's own \<^verbatim>\<open>Init\<close> belong to the external generator and are left out.
\<close>

definition initGenerator :: "(nat \<Rightarrow> 'p list \<times> 'h) \<Rightarrow> ('p, 'h) server \<Rightarrow> ('p, 'h) server" where
  "initGenerator gen s =
     (let name = mGenerator (mSimConfig s);
          s1 = s\<lparr>mState := Initializing, mPrimGen := None\<rparr>;
          s2 = (if name \<noteq> ''extkin'' \<or> name \<noteq> ''extkinO2''
                then (case mPrimGeneratorCache s1 name of
                        Some g \<Rightarrow> s1\<lparr>mPrimGen := Some g\<rparr>
                      | None \<Rightarrow> s1)
                else s1);
          s3 = (case mPrimGen s2 of
                  None \<Rightarrow> s2\<lparr>mPrimGen := Some (nInstances s2),
                              mPrimGeneratorCache := (mPrimGeneratorCache s2)(name \<mapsto> nInstances s2),
                              nInstances := Suc (nInstances s2)\<rparr>
                | Some g \<Rightarrow> s2)
      in generateEvent gen s3)"

text \<open>
  \<^verbatim>\<open>InitTask\<close>: the parsed start-up parameters are arguments; \<open>setSeed\<close> stands for
  \<^verbatim>\<open>RngHelper::setGRandomSeed\<close>, which returns the seed it has set. The member defaults of
  the class are the values not assigned here. The thread that runs \<^verbatim>\<open>initGenerator\<close> is
  assigned to the handle of a fresh device, which is not joinable, and leaves it joinable.
\<close>

definition InitTask ::
  "(nat \<Rightarrow> 'p list \<times> 'h) \<Rightarrow> (int \<Rightarrow> int) \<Rightarrow> SimConfigData \<Rightarrow> 'h \<Rightarrow> int \<Rightarrow> int \<Rightarrow> int \<Rightarrow> int \<Rightarrow> bool
     \<Rightarrow> ('p, 'h) server" where
  "InitTask gen setSeed conf header chunkSize seed0 nEv pipe asservice =
     initGenerator gen
       \<lparr>mSimConfig = conf, mPrimGen = None, mEventHeader = header, mStack = [],
        mChunkGranularity = to_int32 chunkSize, mPartCounter = 0, mNeedNewEvent = True,
        mMaxEvents = to_int32 nEv, mInitialSeed = setSeed seed0, mPipeToDriver = pipe,
        mEventCounter = 0, mGeneratorThread = True, mPrimGeneratorCache = Map.empty,
        mState = Initializing,
        mAsService = asservice, nInstances = 0, nGenerated = 0, pipeOut = []\<rparr>"

text \<open>
  \<^verbatim>\<open>ReInit\<close>: the updates of the \<^verbatim>\<open>ConfigurableParam\<close> registry from the file and the
  key-value string of the request are outside the model. The last statement before the
  return (line 248) assigns the new thread to \<^verbatim>\<open>mGeneratorThread\<close> without joining the
  old one: with a joinable handle the process is terminated there.
\<close>

definition ReInit ::
  "(nat \<Rightarrow> 'p list \<times> 'h) \<Rightarrow> (int \<Rightarrow> int) \<Rightarrow> SimReconfigData \<Rightarrow> ('p, 'h) server
     \<Rightarrow> error + (bool \<times> ('p, 'h) server)" where
  "ReInit gen setSeed reconfig s =
     (if stop reconfig then Inr (False, s)
      else
        (let s1 = s\<lparr>mInitialSeed := setSeed (startSeed reconfig),
                    mMaxEvents := nEvents reconfig,
                    mSimConfig := (mSimConfig s)\<lparr>mGenerator := generator reconfig,
                                                 mTrigger := trigger reconfig,
                                                 mExtKinFileName := extKinfileName reconfig\<rparr>,
                    mEventCounter := 0,
                    mPartCounter := 0,
                    mNeedNewEvent := True\<rparr>
         in if mGeneratorThread s1 then Inl Terminate
            else Inr (True, initGenerator gen (s1\<lparr>mGeneratorThread := True\<rparr>))))"

subsection \<open>The server: requests\<close>

text \<open>
  The number of parts. The source computes
  \<^verbatim>\<open>(int)std::ceil(prims.size() / (1. * mChunkGranularity))\<close> in double precision; for a
  positive granularity and a size below \<open>2 ^ 53\<close> the rounded quotient lies strictly
  between the same two integers as the exact one, so the result is the integer ceiling,
  written here as \<open>- (- n div g)\<close>, and converted to \<^verbatim>\<open>int\<close>. A ceiling beyond the
  range of \<^verbatim>\<open>int\<close> is converted to \<open>- 2 ^ 31\<close>, so that the number of parts is 1
  then; so it is for granularity 0, where the quotient of the source is infinite or not
  a number (and \<open>div\<close> gives 0).
\<close>

definition numberofparts :: "nat \<Rightarrow> int \<Rightarrow> int" where
  "numberofparts n g = max 1 (double_to_int (- ((- int n) div g)))"

text \<open>
  The slice of one part (lines 352 to 361): \<^verbatim>\<open>prims.size()\<close> is a \<^verbatim>\<open>size_t\<close>, the
  products are \<^verbatim>\<open>int\<close>, the difference is taken in \<^verbatim>\<open>size_t\<close> and stored in an
  \<^verbatim>\<open>int\<close>; then both indices are clamped at 0.
\<close>

definition endindex0 :: "nat \<Rightarrow> int \<Rightarrow> int \<Rightarrow> int" where
  "endindex0 n p g = to_int32 (to_size_t (int n - to_size_t (to_int32 (p * g))))"

definition startindex0 :: "nat \<Rightarrow> int \<Rightarrow> int \<Rightarrow> int" where
  "startindex0 n p g = to_int32 (to_size_t (int n - to_size_t (to_int32 (to_int32 (p + 1) * g))))"

definition slice_bounds :: "nat \<Rightarrow> int \<Rightarrow> int \<Rightarrow> int \<times> int" where
  "slice_bounds n p g =
     (let endindex = endindex0 n p g;
          startindex = startindex0 n p g;
          startindex = (if startindex < 0 then 0 else startindex);
          endindex = (if endindex < 0 then 0 else endindex)
      in (startindex, endindex))"

text \<open>
  The copy loop (lines 363 to 365). Reading \<^verbatim>\<open>prims[index]\<close> outside the vector is
  undefined in C++; the model returns \<open>OutOfRange\<close> there.
\<close>

function copy_loop :: "'p list \<Rightarrow> int \<Rightarrow> int \<Rightarrow> 'p list \<Rightarrow> error + 'p list" where
  "copy_loop prims i endindex acc =
     (if i < endindex then
        (if 0 \<le> i \<and> nat i < length prims
         then copy_loop prims (i + 1) endindex (acc @ [prims ! nat i])
         else Inl OutOfRange)
      else Inr acc)"
  by pat_completeness auto
termination
  by (relation "measure (\<lambda>(prims, i, endindex, acc). nat (endindex - i))") auto

declare copy_loop.simps [simp del]

definition HandleConfigRequest ::
  "int \<Rightarrow> ('p, 'h) server \<Rightarrow> bool \<times> ('p, 'h) reply option \<times> ('p, 'h) server" where
  "HandleConfigRequest sendcode s =
     (if 0 < sendcode then (True, Some (ConfigReply (mSimConfig s)), s)
      else (True, Some (ConfigReply (mSimConfig s)), s))"

text \<open>
  \<^verbatim>\<open>HandleRequest\<close>. The result is the return value, the message handed to \<^verbatim>\<open>Send\<close>
  (\<open>None\<close> when the function returns without sending), and the new state; \<open>sendcode\<close>
  is what \<^verbatim>\<open>Send\<close> returns. The field \<open>index\<close> is the size of the chunk at the time
  the information is filled in, when the chunk is still empty. The thread is joined where
  a new event is needed (lines 325 to 327) and launched after the last part (line 380).
\<close>

definition HandleRequest ::
  "(nat \<Rightarrow> 'p list \<times> 'h) \<Rightarrow> int \<Rightarrow> string \<Rightarrow> ('p, 'h) server
     \<Rightarrow> error + (bool \<times> ('p, 'h) reply option \<times> ('p, 'h) server)" where
  "HandleRequest gen sendcode requeststring s =
     (if requeststring = ''configrequest'' then Inr (HandleConfigRequest sendcode s)
      else if requeststring \<noteq> ''primrequest'' then Inr (True, None, s)
      else
        (let workavailable = \<not> (mMaxEvents s \<le> mEventCounter s \<and> mNeedNewEvent s);
             s1 = (if mNeedNewEvent s
                   then s\<lparr>mGeneratorThread := False, mNeedNewEvent := False, mPartCounter := 0,
                          mEventCounter := to_int32 (mEventCounter s + 1)\<rparr>
                   else s);
             prims = mStack s1;
             nump = numberofparts (length prims) (mChunkGranularity s1);
             i = \<lparr>eventID = (if workavailable then mEventCounter s1 else - 1),
                  maxEvents = mMaxEvents s1,
                  part = to_int32 (mPartCounter s1 + 1),
                  nparts = nump,
                  seed = to_int32 (mEventCounter s1 + mInitialSeed s1),
                  index = 0,
                  mMCEventHeader = mEventHeader s1\<rparr>
         in if workavailable then
              (let (startindex, endindex) =
                     slice_bounds (length prims) (mPartCounter s1) (mChunkGranularity s1)
               in case copy_loop prims startindex endindex [] of
                    Inl e \<Rightarrow> Inl e
                  | Inr particles \<Rightarrow>
                      (let s2 = (if mPipeToDriver s1 \<noteq> - 1 \<and> part i = 1
                                 then s1\<lparr>pipeOut := pipeOut s1 @ [mEventCounter s1]\<rparr>
                                 else s1);
                           s3 = s2\<lparr>mPartCounter := to_int32 (mPartCounter s2 + 1)\<rparr>;
                           s4 = (if mPartCounter s3 = nump
                                 then generateEvent gen
                                        (s3\<lparr>mNeedNewEvent := True, mGeneratorThread := True\<rparr>)
                                 else s3)
                       in if mPartCounter s3 = nump \<and> mGeneratorThread s3 then Inl Terminate
                          else
                            Inr (if 0 < sendcode then workavailable else False,
                                 Some (ChunkReply \<lparr>mSubEventInfo = i, mParticles = particles\<rparr>),
                                 s4)))
            else
              Inr (if 0 < sendcode then workavailable else False,
                   Some (ChunkReply \<lparr>mSubEventInfo = i, mParticles = []\<rparr>),
                   s1)))"

text \<open>
  A run of consecutive \<^verbatim>\<open>"primrequest"\<close>s, one per send code; the result lists what was
  handed to \<^verbatim>\<open>Send\<close>, in order.
\<close>

fun serve ::
  "(nat \<Rightarrow> 'p list \<times> 'h) \<Rightarrow> int list \<Rightarrow> ('p, 'h) server
     \<Rightarrow> error + (('p, 'h) reply option list \<times> ('p, 'h) server)" where
  "serve gen [] s = Inr ([], s)"
| "serve gen (c # cs) s =
     (case HandleRequest gen c ''primrequest'' s of
        Inl e \<Rightarrow> Inl e
      | Inr (b, m, s') \<Rightarrow>
          (case serve gen cs s' of
             Inl e \<Rightarrow> Inl e
           | Inr (ms, s'') \<Rightarrow> Inr (m # ms, s'')))"

subsection \<open>The worker\<close>

text \<open>
  \<^verbatim>\<open>isWorkAvailable\<close>: \<open>sendcode\<close> and \<open>code\<close> are the return codes of the send and the
  receive on the status channel, \<open>state\<close> the integer received, \<open>enc\<close> the integer
  value of each enumerator.
\<close>

definition isWorkAvailable :: "(O2PrimaryServerState \<Rightarrow> int) \<Rightarrow> int \<Rightarrow> int \<Rightarrow> int \<Rightarrow> bool" where
  "isWorkAvailable enc sendcode code state =
     (if 0 < sendcode then
        (if 0 < code then
           (if state = enc ReadyToServe then True
            else if state = enc Initializing then True
            else if state = enc WaitingEvent then True
            else if state = enc Idle then False
            else False)
         else False)
      else False)"

text \<open>
  The part of the worker that the kernel touches: the primaries and the sub-event
  information given to the application, the seed of \<^verbatim>\<open>gRandom\<close>, and the calls made to
  the transport engine.
\<close>

datatype vmc_call = ProcessEvent | ProcessRun int

record ('p, 'h) worker =
  appPrimaries :: "'p list"
  appSubEventInfo :: "'h SubEventInfo option"
  randomSeed :: int
  vmcCalls :: "vmc_call list"

definition process_chunk :: "string \<Rightarrow> ('p, 'h) PrimaryChunk \<Rightarrow> ('p, 'h) worker \<Rightarrow> ('p, 'h) worker" where
  "process_chunk engine chunk w =
     w\<lparr>appPrimaries := mParticles chunk,
       appSubEventInfo := Some (mSubEventInfo chunk),
       randomSeed := seed (mSubEventInfo chunk),
       vmcCalls := vmcCalls w @ [if engine = ''TGeant4'' then ProcessEvent else ProcessRun 1]\<rparr>"

text \<open>
  The \<^verbatim>\<open>do ... while (code == -1 && trial <= 2)\<close> loop of \<^verbatim>\<open>Kernel\<close>: \<open>recv trial\<close> is
  the return code of the receive number \<open>trial\<close> and the chunk decoded from the reply
  buffer. \<open>Some b\<close> is a \<^verbatim>\<open>return b\<close> from inside the loop, \<open>None\<close> the normal exit.
\<close>

function receive_loop ::
  "string \<Rightarrow> (nat \<Rightarrow> int \<times> ('p, 'h) PrimaryChunk) \<Rightarrow> nat \<Rightarrow> ('p, 'h) worker
     \<Rightarrow> bool option \<times> ('p, 'h) worker" where
  "receive_loop engine recv trial w =
     (let (code, chunk) = recv trial;
          trial' = trial + 1
      in if 0 < code then
           (if length (mParticles chunk) = 0 \<and> eventID (mSubEventInfo chunk) = - 1
            then (Some False, w)
            else
              (let w' = process_chunk engine chunk w
               in if code = - 1 \<and> trial' \<le> 2 then receive_loop engine recv trial' w'
                  else (None, w')))
         else
           (if code = - 1 \<and> trial' \<le> 2 then receive_loop engine recv trial' w
            else (None, w)))"
  by pat_completeness auto
termination
  by (relation "measure (\<lambda>(engine, recv, trial, w). 3 - trial)") auto

declare receive_loop.simps [simp del]

text \<open>
  \<^verbatim>\<open>Kernel\<close>: \<open>status\<close> is \<open>None\<close> without a status channel, else the outcome of the
  status exchange (send code, receive code, state received). Registering the data channel
  with the application and the time and memory stamps are left out.
\<close>

definition Kernel ::
  "(O2PrimaryServerState \<Rightarrow> int) \<Rightarrow> string \<Rightarrow> (int \<times> int \<times> int) option \<Rightarrow> int
     \<Rightarrow> (nat \<Rightarrow> int \<times> ('p, 'h) PrimaryChunk) \<Rightarrow> ('p, 'h) worker \<Rightarrow> bool \<times> ('p, 'h) worker" where
  "Kernel enc engine status sendcode recv w =
     (if (case status of
            None \<Rightarrow> False
          | Some (ssend, scode, sstate) \<Rightarrow> \<not> isWorkAvailable enc ssend scode sstate)
      then (False, w)
      else if 0 < sendcode then
        (case receive_loop engine recv 0 w of
           (Some b, w') \<Rightarrow> (b, w')
         | (None, w') \<Rightarrow> (True, w'))
      else (False, w))"

subsection \<open>Notions used in the statements\<close>

text \<open>
  The block of \<^verbatim>\<open>HandleRequest\<close> that starts a new event (lines 323 to 331), the
  \<^verbatim>\<open>SubEventInfo\<close> it fills in (lines 341 to 348), and the bookkeeping after a part has
  been copied (lines 370 to 381) in a state whose thread handle is not joinable, each as a
  function of the state, so that the result of a request can be written down.
\<close>

definition new_event :: "('p, 'h) server \<Rightarrow> ('p, 'h) server" where
  "new_event s =
     s\<lparr>mGeneratorThread := False, mNeedNewEvent := False, mPartCounter := 0,
       mEventCounter := to_int32 (mEventCounter s + 1)\<rparr>"

definition chunk_info :: "bool \<Rightarrow> ('p, 'h) server \<Rightarrow> 'h SubEventInfo" where
  "chunk_info workavailable s =
     \<lparr>eventID = (if workavailable then mEventCounter s else - 1),
      maxEvents = mMaxEvents s,
      part = to_int32 (mPartCounter s + 1),
      nparts = numberofparts (length (mStack s)) (mChunkGranularity s),
      seed = to_int32 (mEventCounter s + mInitialSeed s),
      index = 0,
      mMCEventHeader = mEventHeader s\<rparr>"

definition after_part :: "(nat \<Rightarrow> 'p list \<times> 'h) \<Rightarrow> ('p, 'h) server \<Rightarrow> ('p, 'h) server" where
  "after_part gen s =
     (let s2 = (if mPipeToDriver s \<noteq> - 1 \<and> to_int32 (mPartCounter s + 1) = 1
                then s\<lparr>pipeOut := pipeOut s @ [mEventCounter s]\<rparr>
                else s);
          s3 = s2\<lparr>mPartCounter := to_int32 (mPartCounter s + 1)\<rparr>
      in if mPartCounter s3 = numberofparts (length (mStack s)) (mChunkGranularity s)
         then generateEvent gen (s3\<lparr>mNeedNewEvent := True, mGeneratorThread := True\<rparr>)
         else s3)"

text \<open>
  The part with number \<open>j\<close> (counted from 0) of a primary sequence, as the spec describes
  it: the sequence is walked from its tail, \<open>end = total - j * g\<close> and
  \<open>start = total - (j + 1) * g\<close>, both clamped at 0, and the part is
  \<open>primaries[start:end]\<close>. \<open>event_chunk s j\<close> is the chunk for part \<open>j\<close> of the event
  that is current in state \<open>s\<close>.
\<close>

definition part_slice :: "'p list \<Rightarrow> int \<Rightarrow> nat \<Rightarrow> 'p list" where
  "part_slice prims g j =
     (let total = int (length prims);
          endindex = max 0 (total - int j * g);
          startindex = max 0 (total - (int j + 1) * g)
      in take (nat (endindex - startindex)) (drop (nat startindex) prims))"

definition event_chunk :: "('p, 'h) server \<Rightarrow> nat \<Rightarrow> ('p, 'h) PrimaryChunk" where
  "event_chunk s j =
     \<lparr>mSubEventInfo =
        \<lparr>eventID = mEventCounter s, maxEvents = mMaxEvents s, part = int j + 1,
         nparts = numberofparts (length (mStack s)) (mChunkGranularity s),
         seed = to_int32 (mEventCounter s + mInitialSeed s), index = 0,
         mMCEventHeader = mEventHeader s\<rparr>,
      mParticles = part_slice (mStack s) (mChunkGranularity s) j\<rparr>"

text \<open>
  The state after \<open>j\<close> parts of the current event have been handed out, starting from
  a state \<open>s\<close> in which the event has just been started: the event number is written
  to the driver pipe with the first part, the part counter is \<open>j\<close>, and with the last
  part the next event is generated.
\<close>

definition pipe_written :: "('p, 'h) server \<Rightarrow> ('p, 'h) server" where
  "pipe_written s =
     (if mPipeToDriver s \<noteq> - 1 then s\<lparr>pipeOut := pipeOut s @ [mEventCounter s]\<rparr> else s)"

definition parts_served :: "(nat \<Rightarrow> 'p list \<times> 'h) \<Rightarrow> ('p, 'h) server \<Rightarrow> nat \<Rightarrow> ('p, 'h) server" where
  "parts_served gen s j =
     (if j = 0 then s
      else if int j = numberofparts (length (mStack s)) (mChunkGranularity s)
      then generateEvent gen
             ((pipe_written s)\<lparr>mPartCounter := int j, mNeedNewEvent := True,
                                mGeneratorThread := True\<rparr>)
      else (pipe_written s)\<lparr>mPartCounter := int j\<rparr>)"

text \<open>
  A chunk is the end-of-work sentinel when it has no primaries and its event number is
  \<open>- 1\<close>; this is the test the worker makes (\<^verbatim>\<open>Kernel\<close>, line 235). A request emits
  the sentinel when the message it hands to \<^verbatim>\<open>Send\<close> is such a chunk.
\<close>

definition is_sentinel :: "('p, 'h) PrimaryChunk \<Rightarrow> bool" where
  "is_sentinel chunk = (length (mParticles chunk) = 0 \<and> eventID (mSubEventInfo chunk) = - 1)"

definition emits_sentinel ::
  "error + (bool \<times> ('p, 'h) reply option \<times> ('p, 'h) server) \<Rightarrow> bool" where
  "emits_sentinel r =
     (case r of
        Inr (b, Some (ChunkReply chunk), s') \<Rightarrow> is_sentinel chunk
      | _ \<Rightarrow> False)"

text \<open>The status check of \<^verbatim>\<open>Kernel\<close> lets the worker go on.\<close>

definition status_ok :: "(O2PrimaryServerState \<Rightarrow> int) \<Rightarrow> (int \<times> int \<times> int) option \<Rightarrow> bool" where
  "status_ok enc status =
     (case status of
        None \<Rightarrow> True
      | Some (ssend, scode, sstate) \<Rightarrow> isWorkAvailable enc ssend scode sstate)"

text \<open>
  Projections of a run of requests: the messages handed to \<^verbatim>\<open>Send\<close>, the primaries
  of a message, the sizes of the chunks and the part counts they announce.
\<close>

definition particles_of :: "('p, 'h) reply option \<Rightarrow> 'p list" where
  "particles_of m = (case m of Some (ChunkReply chunk) \<Rightarrow> mParticles chunk | _ \<Rightarrow> [])"

definition replies_of ::
  "error + (('p, 'h) reply option list \<times> ('p, 'h) server) \<Rightarrow> ('p, 'h) reply option list" where
  "replies_of r = (case r of Inl e \<Rightarrow> [] | Inr (ms, s') \<Rightarrow> ms)"

definition served_sizes ::
  "error + (('p, 'h) reply option list \<times> ('p, 'h) server) \<Rightarrow> nat list" where
  "served_sizes r = map (\<lambda>m. length (particles_of m)) (replies_of r)"

definition served_nparts ::
  "error + (('p, 'h) reply option list \<times> ('p, 'h) server) \<Rightarrow> int list" where
  "served_nparts r =
     map (\<lambda>m. case m of Some (ChunkReply chunk) \<Rightarrow> nparts (mSubEventInfo chunk) | _ \<Rightarrow> 0)
       (replies_of r)"

subsection \<open>Concrete inputs\<close>

text \<open>
  Modelled from the spec: one possible numbering of \<^verbatim>\<open>O2PrimaryServerState\<close>, in the
  order in which the spec lists the states. It serves as a concrete instance of the
  parameter \<open>enc\<close> only.
\<close>

definition declared_code :: "O2PrimaryServerState \<Rightarrow> int" where
  "declared_code st =
     (case st of Initializing \<Rightarrow> 0 | WaitingEvent \<Rightarrow> 1 | ReadyToServe \<Rightarrow> 2 | Idle \<Rightarrow> 3
      | Stopped \<Rightarrow> 4)"

text \<open>
  A generator whose first two events have one primary each and whose later events have
  three; primaries are numbers, the header is the number of the event. The server is
  started with chunk size 2, seed 7, two events, no driver pipe.
\<close>

definition example_gen :: "nat \<Rightarrow> nat list \<times> nat" where
  "example_gen k = (if k = 0 then [10] else if k = 1 then [20] else [30, 31, 32], k)"

definition example_server :: "(nat, nat) server" where
  "example_server =
     InitTask example_gen (\<lambda>x. x)
       \<lparr>mGenerator = ''pythia8'', mTrigger = [], mExtKinFileName = []\<rparr>
       0 2 7 2 (- 1) False"

definition example_service :: "(nat, nat) server" where
  "example_service =
     InitTask example_gen (\<lambda>x. x)
       \<lparr>mGenerator = ''pythia8'', mTrigger = [], mExtKinFileName = []\<rparr>
       0 2 7 2 (- 1) True"

definition example_chunk :: "int \<Rightarrow> nat list \<Rightarrow> (nat, nat) PrimaryChunk" where
  "example_chunk ev ps =
     \<lparr>mSubEventInfo = \<lparr>eventID = ev, maxEvents = 2, part = 1, nparts = 1, seed = 8, index = 0,
                        mMCEventHeader = 0\<rparr>,
      mParticles = ps\<rparr>"

definition example_worker :: "(nat, nat) worker" where
  "example_worker = \<lparr>appPrimaries = [], appSubEventInfo = None, randomSeed = 0, vmcCalls = []\<rparr>"

section \<open>Properties\<close>

subsection \<open>Conversions between the integer types\<close>

lemma to_int32_id: "- 2147483648 \<le> x \<Longrightarrow> x \<le> INT_MAX \<Longrightarrow> to_int32 x = x"
  by (simp add: to_int32_def INT_MAX_def)

lemma to_int32_succ_ne: "0 \<le> e \<Longrightarrow> e \<le> INT_MAX \<Longrightarrow> to_int32 (e + 1) \<noteq> - 1"
proof (cases "e = INT_MAX")
  case True
  then show ?thesis by (simp add: to_int32_def INT_MAX_def)
next
  case False
  assume "0 \<le> e" "e \<le> INT_MAX"
  with False have "to_int32 (e + 1) = e + 1"
    by (intro to_int32_id) (simp_all add: INT_MAX_def)
  with \<open>0 \<le> e\<close> show ?thesis by simp
qed

lemma to_int32_mod: "to_int32 x mod 4294967296 = x mod 4294967296"
  by (simp add: to_int32_def mod_diff_left_eq)

lemma to_int32_eqI: "a mod 4294967296 = b mod 4294967296 \<Longrightarrow> to_int32 a = to_int32 b"
proof -
  assume h: "a mod 4294967296 = b mod 4294967296"
  have "(a + 2147483648) mod 4294967296 = (a mod 4294967296 + 2147483648) mod 4294967296"
    by (simp add: mod_add_left_eq)
  also have "\<dots> = (b + 2147483648) mod 4294967296"
    by (simp add: h mod_add_left_eq)
  finally show ?thesis by (simp add: to_int32_def)
qed

lemma to_size_t_mod: "to_size_t x mod 4294967296 = x mod 4294967296"
  unfolding to_size_t_def by (rule mod_mod_cancel) simp

text \<open>
  A difference taken in \<^verbatim>\<open>size_t\<close> and stored in an \<^verbatim>\<open>int\<close> is the difference of the
  integers, reduced to 32 bits.
\<close>

lemma size_t_difference:
  "to_int32 (to_size_t (a - to_size_t (to_int32 x))) = to_int32 (a - x)"
proof (rule to_int32_eqI)
  have "to_size_t (a - to_size_t (to_int32 x)) mod 4294967296
          = (a - to_size_t (to_int32 x)) mod 4294967296"
    by (rule to_size_t_mod)
  also have "\<dots> = (a - to_size_t (to_int32 x) mod 4294967296) mod 4294967296"
    by (simp add: mod_diff_right_eq)
  also have "\<dots> = (a - x mod 4294967296) mod 4294967296"
    by (simp only: to_size_t_mod to_int32_mod)
  also have "\<dots> = (a - x) mod 4294967296"
    by (simp add: mod_diff_right_eq)
  finally show "to_size_t (a - to_size_t (to_int32 x)) mod 4294967296 = (a - x) mod 4294967296" .
qed

lemma to_int32_mult_left: "to_int32 (to_int32 x * g) = to_int32 (x * g)"
proof (rule to_int32_eqI)
  have "(to_int32 x * g) mod 4294967296 = (to_int32 x mod 4294967296 * g) mod 4294967296"
    by (simp add: mod_mult_left_eq)
  also have "\<dots> = (x * g) mod 4294967296"
    by (simp only: to_int32_mod mod_mult_left_eq)
  finally show "(to_int32 x * g) mod 4294967296 = (x * g) mod 4294967296" .
qed

lemma endindex0_eq: "endindex0 n p g = to_int32 (int n - p * g)"
  by (simp add: endindex0_def size_t_difference)

lemma startindex0_eq: "startindex0 n p g = to_int32 (int n - (p + 1) * g)"
proof -
  have "startindex0 n p g = to_int32 (int n - to_int32 (p + 1) * g)"
    by (simp add: startindex0_def size_t_difference)
  also have "\<dots> = to_int32 (int n - (p + 1) * g)"
  proof (rule to_int32_eqI)
    have "(int n - to_int32 (p + 1) * g) mod 4294967296
            = (int n - (to_int32 (p + 1) * g) mod 4294967296) mod 4294967296"
      by (simp add: mod_diff_right_eq)
    also have "(to_int32 (p + 1) * g) mod 4294967296 = ((p + 1) * g) mod 4294967296"
      using to_int32_mult_left [of "p + 1" g] to_int32_mod by metis
    finally show "(int n - to_int32 (p + 1) * g) mod 4294967296
                    = (int n - (p + 1) * g) mod 4294967296"
      by (simp add: mod_diff_right_eq)
  qed
  finally show ?thesis .
qed

subsection \<open>The slice of one part\<close>

lemma slice_bounds_exact:
  assumes "0 \<le> p" and "1 \<le> g" and "int n \<le> INT_MAX"
    and "(p + 1) * g \<le> int n + 2147483648"
  shows "slice_bounds n p g = (max 0 (int n - (p + 1) * g), max 0 (int n - p * g))"
proof -
  have pg: "0 \<le> p * g" using assms(1,2) by simp
  have le: "p * g \<le> (p + 1) * g" using assms(2) by (simp add: algebra_simps)
  have e: "endindex0 n p g = int n - p * g"
    unfolding endindex0_eq using pg le assms(3,4) by (intro to_int32_id) simp_all
  have s: "startindex0 n p g = int n - (p + 1) * g"
    unfolding startindex0_eq using pg le assms(3,4) by (intro to_int32_id) simp_all
  show ?thesis
    by (simp add: slice_bounds_def Let_def e s max_def)
qed

lemma copy_loop_slice:
  "0 \<le> a \<Longrightarrow> b \<le> int (length prims) \<Longrightarrow>
     copy_loop prims a b acc = Inr (acc @ take (nat (b - a)) (drop (nat a) prims))"
proof (induction prims a b acc rule: copy_loop.induct)
  case (1 prims i endindex acc)
  show ?case
  proof (cases "i < endindex")
    case False
    then show ?thesis by (simp add: copy_loop.simps [of prims i endindex acc])
  next
    case True
    with "1.prems" have inr: "0 \<le> i \<and> nat i < length prims" by linarith
    have step: "copy_loop prims i endindex acc =
                  copy_loop prims (i + 1) endindex (acc @ [prims ! nat i])"
      using True inr by (simp add: copy_loop.simps [of prims i endindex acc])
    have ih: "copy_loop prims (i + 1) endindex (acc @ [prims ! nat i]) =
                Inr ((acc @ [prims ! nat i]) @
                     take (nat (endindex - (i + 1))) (drop (nat (i + 1)) prims))"
      using "1.IH" [OF True inr] "1.prems" by simp
    have n1: "nat (endindex - i) = Suc (nat (endindex - (i + 1)))"
      using True by simp
    have n2: "nat (i + 1) = Suc (nat i)" using inr by (simp add: nat_add_distrib)
    have "take (nat (endindex - i)) (drop (nat i) prims) =
            prims ! nat i # take (nat (endindex - (i + 1))) (drop (nat (i + 1)) prims)"
      using inr by (simp add: n1 n2 Cons_nth_drop_Suc [symmetric])
    with step ih show ?thesis by simp
  qed
qed

subsection \<open>One request\<close>

lemma HandleRequest_no_work:
  assumes "mMaxEvents s \<le> mEventCounter s" and "mNeedNewEvent s"
  shows "HandleRequest gen sendcode ''primrequest'' s =
     Inr (False,
          Some (ChunkReply \<lparr>mSubEventInfo = chunk_info False (new_event s), mParticles = []\<rparr>),
          new_event s)"
  using assms by (simp add: HandleRequest_def Let_def chunk_info_def new_event_def)

text \<open>
  A request in the middle of an event, in any state: the launch of the next generation
  after the last part terminates the process when the handle is still joinable.
\<close>

lemma HandleRequest_part_any:
  assumes "\<not> mNeedNewEvent s"
  shows "HandleRequest gen sendcode ''primrequest'' s =
     (case copy_loop (mStack s)
             (fst (slice_bounds (length (mStack s)) (mPartCounter s) (mChunkGranularity s)))
             (snd (slice_bounds (length (mStack s)) (mPartCounter s) (mChunkGranularity s))) [] of
        Inl e \<Rightarrow> Inl e
      | Inr particles \<Rightarrow>
          (if to_int32 (mPartCounter s + 1) =
                numberofparts (length (mStack s)) (mChunkGranularity s) \<and> mGeneratorThread s
           then Inl Terminate
           else
             Inr (0 < sendcode,
                  Some (ChunkReply \<lparr>mSubEventInfo = chunk_info True s, mParticles = particles\<rparr>),
                  after_part gen s)))"
  using assms
  by (cases "copy_loop (mStack s)
             (fst (slice_bounds (length (mStack s)) (mPartCounter s) (mChunkGranularity s)))
             (snd (slice_bounds (length (mStack s)) (mPartCounter s) (mChunkGranularity s))) []")
     (simp_all add: HandleRequest_def Let_def case_prod_beta chunk_info_def after_part_def)

lemma HandleRequest_part:
  assumes "\<not> mNeedNewEvent s" and "\<not> mGeneratorThread s"
  shows "HandleRequest gen sendcode ''primrequest'' s =
     (case copy_loop (mStack s)
             (fst (slice_bounds (length (mStack s)) (mPartCounter s) (mChunkGranularity s)))
             (snd (slice_bounds (length (mStack s)) (mPartCounter s) (mChunkGranularity s))) [] of
        Inl e \<Rightarrow> Inl e
      | Inr particles \<Rightarrow>
          Inr (0 < sendcode,
               Some (ChunkReply \<lparr>mSubEventInfo = chunk_info True s, mParticles = particles\<rparr>),
               after_part gen s))"
  unfolding HandleRequest_part_any [OF assms(1)] using assms(2)
  by (cases "copy_loop (mStack s)
             (fst (slice_bounds (length (mStack s)) (mPartCounter s) (mChunkGranularity s)))
             (snd (slice_bounds (length (mStack s)) (mPartCounter s) (mChunkGranularity s))) []")
     simp_all

lemma HandleRequest_new_event:
  assumes "mNeedNewEvent s" and "\<not> mMaxEvents s \<le> mEventCounter s"
  shows "HandleRequest gen sendcode ''primrequest'' s =
         HandleRequest gen sendcode ''primrequest'' (new_event s)"
  using assms by (simp add: HandleRequest_def Let_def new_event_def)

subsection \<open>The number of parts\<close>

lemma numberofparts_ge1: "1 \<le> numberofparts n g"
  by (simp add: numberofparts_def)

lemma neg_div_decomp:
  assumes "1 \<le> (g::int)"
  shows "- ((- a) div g) * g = a + (- a) mod g" and "0 \<le> (- a) mod g" and "(- a) mod g < g"
proof -
  have e: "(- a) div g * g + (- a) mod g = - a" by (rule div_mult_mod_eq)
  have "- ((- a) div g) * g = - ((- a) div g * g)" by simp
  with e show "- ((- a) div g) * g = a + (- a) mod g" by linarith
  show "0 \<le> (- a) mod g" using assms by simp
  show "(- a) mod g < g" using assms by simp
qed

text \<open>
  For a positive granularity and a size in the range of \<^verbatim>\<open>int\<close> the ceiling lies
  between 0 and the size, so the conversion to \<^verbatim>\<open>int\<close> keeps it.
\<close>

lemma ceiling_in_range:
  assumes "1 \<le> g"
  shows "0 \<le> - ((- int n) div g)" and "- ((- int n) div g) \<le> int n"
proof -
  let ?c = "- ((- int n) div g)"
  have "(- int n) div g \<le> 0"
    using assms by (simp add: div_nonpos_pos_le0)
  then show c0: "0 \<le> ?c" by simp
  show "?c \<le> int n"
  proof (cases "n = 0")
    case True
    then show ?thesis by simp
  next
    case False
    then have "- int n < 0" by simp
    then have "(- int n) div 1 \<le> (- int n) div g"
      using assms by (intro zdiv_mono2_neg) simp_all
    then show ?thesis by simp
  qed
qed

lemma numberofparts_in_range:
  assumes "1 \<le> g" and "int n \<le> INT_MAX"
  shows "numberofparts n g = max 1 (- ((- int n) div g))"
proof -
  have "double_to_int (- ((- int n) div g)) = - ((- int n) div g)"
    using ceiling_in_range [OF assms(1), of n] assms(2)
    by (simp add: double_to_int_def)
  then show ?thesis by (simp add: numberofparts_def)
qed

lemma numberofparts_covers:
  assumes "1 \<le> g" and "int n \<le> INT_MAX"
  shows "int n \<le> numberofparts n g * g"
proof (cases "1 \<le> - ((- int n) div g)")
  case True
  then have "numberofparts n g = - ((- int n) div g)"
    by (simp add: numberofparts_in_range [OF assms])
  then show ?thesis using neg_div_decomp [OF assms(1), of "int n"] by simp
next
  case False
  then have np: "numberofparts n g = 1" by (simp add: numberofparts_in_range [OF assms])
  from False have "- ((- int n) div g) \<le> 0" by simp
  then have "- ((- int n) div g) * g \<le> 0"
    using assms(1) by (simp add: mult_le_0_iff)
  then have "int n \<le> 0" using neg_div_decomp [OF assms(1), of "int n"] by linarith
  with assms(1) np show ?thesis by simp
qed

lemma part_below_size:
  assumes "1 \<le> g" and "int n \<le> INT_MAX" and "0 < j" and "int j < numberofparts n g"
  shows "int j * g < int n"
proof -
  from assms(3,4) have "1 < numberofparts n g" by linarith
  then have np: "numberofparts n g = - ((- int n) div g)"
    by (simp add: numberofparts_in_range [OF assms(1,2)] max_def split: if_splits)
  with assms(4) have "int j \<le> - ((- int n) div g) - 1" by simp
  then have "int j * g \<le> (- ((- int n) div g) - 1) * g"
    using assms(1) by (intro mult_right_mono) simp_all
  also have "\<dots> = - ((- int n) div g) * g - g" by (simp add: algebra_simps)
  also have "\<dots> < int n" using neg_div_decomp [OF assms(1), of "int n"] by linarith
  finally show ?thesis .
qed

lemma part_bounds:
  assumes "1 \<le> g" and "g \<le> INT_MAX" and "int n \<le> INT_MAX" and "int j < numberofparts n g"
  shows "(int j + 1) * g \<le> int n + 2147483648" and "int j + 1 \<le> INT_MAX"
proof -
  have "(int j + 1) * g \<le> int n + 2147483648 \<and> int j + 1 \<le> INT_MAX"
  proof (cases "j = 0")
    case True
    with assms(1,2) show ?thesis by (simp add: INT_MAX_def)
  next
    case False
    then have "int j * g < int n"
      using part_below_size [OF assms(1,3) _ assms(4)] by simp
    moreover have "int j \<le> int j * g" using assms(1) by (simp add: mult_le_cancel_left1)
    moreover have "(int j + 1) * g = int j * g + g" by (simp add: algebra_simps)
    ultimately show ?thesis using assms(2,3) by (simp add: INT_MAX_def)
  qed
  then show "(int j + 1) * g \<le> int n + 2147483648" and "int j + 1 \<le> INT_MAX" by simp_all
qed


text \<open>
  Beyond it the conversion decides: an event of \<open>2 ^ 31\<close> primaries with granularity 1
  has one part.
\<close>

lemma numberofparts_beyond_int: "numberofparts 2147483648 1 = 1"
  by (simp add: numberofparts_def double_to_int_def INT_MAX_def)

subsection \<open>The parts of one event\<close>

lemma pipe_written_fields [simp]:
  "mStack (pipe_written s) = mStack s"
  "mChunkGranularity (pipe_written s) = mChunkGranularity s"
  "mPartCounter (pipe_written s) = mPartCounter s"
  "mNeedNewEvent (pipe_written s) = mNeedNewEvent s"
  "mMaxEvents (pipe_written s) = mMaxEvents s"
  "mInitialSeed (pipe_written s) = mInitialSeed s"
  "mPipeToDriver (pipe_written s) = mPipeToDriver s"
  "mEventCounter (pipe_written s) = mEventCounter s"
  "mEventHeader (pipe_written s) = mEventHeader s"
  "nGenerated (pipe_written s) = nGenerated s"
  "mGeneratorThread (pipe_written s) = mGeneratorThread s"
  by (simp_all add: pipe_written_def)

lemma parts_served_thread:
  assumes "\<not> mGeneratorThread s"
    and "int j < numberofparts (length (mStack s)) (mChunkGranularity s)"
  shows "\<not> mGeneratorThread (parts_served gen s j)"
  using assms by (simp add: parts_served_def)

lemma parts_served_fields:
  assumes "\<not> mNeedNewEvent s" and "mPartCounter s = 0"
    and "int j < numberofparts (length (mStack s)) (mChunkGranularity s)"
  shows "mNeedNewEvent (parts_served gen s j) = False"
    and "mPartCounter (parts_served gen s j) = int j"
    and "mStack (parts_served gen s j) = mStack s"
    and "mChunkGranularity (parts_served gen s j) = mChunkGranularity s"
    and "mMaxEvents (parts_served gen s j) = mMaxEvents s"
    and "mInitialSeed (parts_served gen s j) = mInitialSeed s"
    and "mPipeToDriver (parts_served gen s j) = mPipeToDriver s"
    and "mEventCounter (parts_served gen s j) = mEventCounter s"
    and "mEventHeader (parts_served gen s j) = mEventHeader s"
  using assms by (simp_all add: parts_served_def)

lemma after_part_parts_served:
  assumes "\<not> mNeedNewEvent s" and "mPartCounter s = 0"
    and "int j < numberofparts (length (mStack s)) (mChunkGranularity s)"
    and "int j + 1 \<le> INT_MAX"
  shows "after_part gen (parts_served gen s j) = parts_served gen s (Suc j)"
proof (cases "j = 0")
  case True
  have one: "to_int32 1 = 1" by (simp add: to_int32_def)
  show ?thesis
    using True assms(2)
    by (simp add: after_part_def parts_served_def pipe_written_def one Let_def)
next
  case False
  have "to_int32 (int j + 1) = int j + 1"
    using assms(4) by (intro to_int32_id) simp_all
  then have inc: "to_int32 (1 + int j) = 1 + int j" by (simp add: add.commute)
  have ne: "1 + int j \<noteq> 1" using False by simp
  have mid: "parts_served gen s j = (pipe_written s)\<lparr>mPartCounter := int j\<rparr>"
    using False assms(3) by (simp add: parts_served_def)
  show ?thesis
    unfolding mid
    using ne by (simp add: after_part_def parts_served_def inc Let_def add.commute)
qed

lemma HandleRequest_serves_part:
  assumes "\<not> mNeedNewEvent s" and "mPartCounter s = 0"
    and "1 \<le> mChunkGranularity s" and "mChunkGranularity s \<le> INT_MAX"
    and "int (length (mStack s)) \<le> INT_MAX"
    and "int j < numberofparts (length (mStack s)) (mChunkGranularity s)"
    and "\<not> mGeneratorThread s"
  shows "HandleRequest gen sendcode ''primrequest'' (parts_served gen s j) =
           Inr (0 < sendcode, Some (ChunkReply (event_chunk s j)), parts_served gen s (Suc j))"
proof -
  let ?m = "parts_served gen s j"
  let ?n = "length (mStack s)"
  let ?g = "mChunkGranularity s"
  note f = parts_served_fields [OF assms(1,2,6), of gen]
  note nt = parts_served_thread [OF assms(7,6), of gen]
  note b = part_bounds [OF assms(3,4,5,6)]
  have sb: "slice_bounds ?n (int j) ?g =
              (max 0 (int ?n - (int j + 1) * ?g), max 0 (int ?n - int j * ?g))"
    using assms(3,5) b(1) by (intro slice_bounds_exact) simp_all
  have jg: "0 \<le> int j * ?g" using assms(3) by simp
  have cl: "copy_loop (mStack s) (max 0 (int ?n - (int j + 1) * ?g))
              (max 0 (int ?n - int j * ?g)) [] = Inr ([] @ part_slice (mStack s) ?g j)"
    unfolding part_slice_def Let_def
    using jg by (intro copy_loop_slice) simp_all
  have inc: "to_int32 (int j + 1) = int j + 1"
    using b(2) by (intro to_int32_id) simp_all
  have info: "chunk_info True ?m = mSubEventInfo (event_chunk s j)"
    by (simp add: chunk_info_def event_chunk_def f inc)
  have "HandleRequest gen sendcode ''primrequest'' ?m =
          Inr (0 < sendcode,
               Some (ChunkReply \<lparr>mSubEventInfo = chunk_info True ?m,
                                 mParticles = part_slice (mStack s) ?g j\<rparr>),
               after_part gen ?m)"
    using f(1) nt by (simp add: HandleRequest_part f sb cl)
  also have "\<lparr>mSubEventInfo = chunk_info True ?m,
               mParticles = part_slice (mStack s) ?g j\<rparr> = event_chunk s j"
    by (simp add: info) (simp add: event_chunk_def)
  also have "after_part gen ?m = parts_served gen s (Suc j)"
    using assms(1,2,6) b(2) by (rule after_part_parts_served)
  finally show ?thesis .
qed

lemma serve_parts:
  assumes "\<not> mNeedNewEvent s" and "mPartCounter s = 0"
    and "1 \<le> mChunkGranularity s" and "mChunkGranularity s \<le> INT_MAX"
    and "int (length (mStack s)) \<le> INT_MAX" and "\<not> mGeneratorThread s"
  shows "int (j + length cs) \<le> numberofparts (length (mStack s)) (mChunkGranularity s) \<Longrightarrow>
         serve gen cs (parts_served gen s j) =
           Inr (map (\<lambda>i. Some (ChunkReply (event_chunk s i))) [j..<j + length cs],
                parts_served gen s (j + length cs))"
proof (induction cs arbitrary: j)
  case Nil
  then show ?case by simp
next
  case (Cons c cs)
  from Cons.prems have lt: "int j < numberofparts (length (mStack s)) (mChunkGranularity s)"
    by simp
  have step: "HandleRequest gen c ''primrequest'' (parts_served gen s j) =
                Inr (0 < c, Some (ChunkReply (event_chunk s j)), parts_served gen s (Suc j))"
    using assms(1,2,3,4,5) lt assms(6) by (rule HandleRequest_serves_part)
  have rest: "serve gen cs (parts_served gen s (Suc j)) =
           Inr (map (\<lambda>i. Some (ChunkReply (event_chunk s i))) [Suc j..<Suc j + length cs],
                parts_served gen s (Suc j + length cs))"
    using Cons.prems by (intro Cons.IH) simp
  have "[j..<j + Suc (length cs)] = j # [Suc j..<j + Suc (length cs)]"
    by (rule upt_conv_Cons) simp
  then have upt: "[j..<j + length (c # cs)] = j # [Suc j..<Suc j + length cs]"
    by simp
  show ?case
    unfolding upt by (simp add: step rest)
qed

lemma serve_new_event:
  assumes "mNeedNewEvent s" and "\<not> mMaxEvents s \<le> mEventCounter s" and "cs \<noteq> []"
  shows "serve gen cs s = serve gen cs (new_event s)"
  using assms by (cases cs) (simp_all add: HandleRequest_new_event)

lemma parts_served_all:
  assumes "int k = numberofparts (length (mStack s)) (mChunkGranularity s)"
  shows "parts_served gen s k =
           generateEvent gen ((pipe_written s)\<lparr>mPartCounter := int k, mNeedNewEvent := True,
                                              mGeneratorThread := True\<rparr>)"
proof -
  have "k \<noteq> 0" using assms numberofparts_ge1 [of "length (mStack s)" "mChunkGranularity s"]
    by auto
  with assms show ?thesis by (simp add: parts_served_def)
qed

lemma serve_event:
  assumes "mNeedNewEvent s" and "\<not> mMaxEvents s \<le> mEventCounter s"
    and "1 \<le> mChunkGranularity s" and "mChunkGranularity s \<le> INT_MAX"
    and "int (length (mStack s)) \<le> INT_MAX"
    and "int (length cs) \<le> numberofparts (length (mStack s)) (mChunkGranularity s)"
    and "cs \<noteq> []"
  shows "serve gen cs s =
           Inr (map (\<lambda>i. Some (ChunkReply (event_chunk (new_event s) i))) [0..<length cs],
                parts_served gen (new_event s) (length cs))"
proof -
  let ?s = "new_event s"
  have f: "\<not> mNeedNewEvent ?s" "mPartCounter ?s = 0" "mStack ?s = mStack s"
    "mChunkGranularity ?s = mChunkGranularity s" "\<not> mGeneratorThread ?s"
    by (simp_all add: new_event_def)
  have "serve gen cs (parts_served gen ?s 0) =
           Inr (map (\<lambda>i. Some (ChunkReply (event_chunk ?s i))) [0..<0 + length cs],
                parts_served gen ?s (0 + length cs))"
    using f(1,2,5) assms(3,4,5,6) by (intro serve_parts) (simp_all add: f)
  moreover have "parts_served gen ?s 0 = ?s" by (simp add: parts_served_def)
  ultimately show ?thesis
    using serve_new_event [OF assms(1,2,7), of gen] by simp
qed

lemma take_drop_append: "take a (drop b xs) @ drop (a + b) xs = drop b xs"
proof -
  have "take a (drop b xs) @ drop a (drop b xs) = drop b xs" by (rule append_take_drop_id)
  then show ?thesis by (simp add: add.commute)
qed

lemma slices_tail:
  assumes "1 \<le> g"
  shows "concat (rev (map (part_slice prims g) [0..<j])) =
           drop (nat (max 0 (int (length prims) - int j * g))) prims"
proof (induction j)
  case 0
  then show ?case by simp
next
  case (Suc j)
  let ?e = "max 0 (int (length prims) - int j * g)"
  let ?s = "max 0 (int (length prims) - (int j + 1) * g)"
  have le: "?s \<le> ?e" using assms by (simp add: algebra_simps max_def)
  have ge: "0 \<le> ?s" by simp
  have "nat ?e = nat (?e - ?s) + nat ?s"
    using le ge by linarith
  then have "take (nat (?e - ?s)) (drop (nat ?s) prims) @ drop (nat ?e) prims =
               drop (nat ?s) prims"
    by (simp only: take_drop_append)
  then have "part_slice prims g j @ drop (nat ?e) prims = drop (nat ?s) prims"
    by (simp only: part_slice_def Let_def)
  then show ?case
    using Suc.IH by (simp add: add.commute [of 1 "int j"])
qed

lemma slices_cover:
  assumes "1 \<le> g" and "int (length prims) \<le> INT_MAX"
    and "int k = numberofparts (length prims) g"
  shows "concat (rev (map (part_slice prims g) [0..<k])) = prims"
proof -
  have "int (length prims) \<le> int k * g"
    using numberofparts_covers [OF assms(1,2)] assms(3) by simp
  then have "nat (max 0 (int (length prims) - int k * g)) = 0" by simp
  then show ?thesis using slices_tail [OF assms(1), of prims k] by simp
qed

lemma event_chunks_particles:
  assumes "1 \<le> mChunkGranularity s" and "int (length (mStack s)) \<le> INT_MAX"
    and "int k = numberofparts (length (mStack s)) (mChunkGranularity s)"
  shows "concat (rev (map mParticles (map (event_chunk s) [0..<k]))) = mStack s"
proof -
  have e: "mParticles \<circ> event_chunk s = part_slice (mStack s) (mChunkGranularity s)"
    by (rule ext) (simp add: event_chunk_def)
  show ?thesis using slices_cover [OF assms] by (simp add: e)
qed

lemma mset_concat_rev: "mset (concat (rev xss)) = mset (concat xss)"
  by (induction xss) simp_all

lemma serve_event_prefix:
  assumes "mNeedNewEvent s" and "\<not> mMaxEvents s \<le> mEventCounter s"
    and "1 \<le> mChunkGranularity s" and "mChunkGranularity s \<le> INT_MAX"
    and "int (length (mStack s)) \<le> INT_MAX"
    and "int (length cs) = numberofparts (length (mStack s)) (mChunkGranularity s)"
    and "0 < j" and "j < length cs"
  shows "\<exists>ms sj. serve gen (take j cs) s = Inr (ms, sj) \<and> \<not> mNeedNewEvent sj"
proof -
  let ?s = "new_event s"
  have f: "\<not> mNeedNewEvent ?s" "mPartCounter ?s = 0" "mStack ?s = mStack s"
    "mChunkGranularity ?s = mChunkGranularity s"
    by (simp_all add: new_event_def)
  have len: "length (take j cs) = j" using assms(8) by simp
  have ne: "take j cs \<noteq> []" using assms(7,8) by auto
  have lt: "int j < numberofparts (length (mStack ?s)) (mChunkGranularity ?s)"
    using assms(6,8) by (simp add: f)
  have "serve gen (take j cs) s =
           Inr (map (\<lambda>i. Some (ChunkReply (event_chunk ?s i))) [0..<length (take j cs)],
                parts_served gen ?s (length (take j cs)))"
    using assms(1,2,3,4,5) _ ne
  proof (rule serve_event)
    show "int (length (take j cs))
            \<le> numberofparts (length (mStack s)) (mChunkGranularity s)"
      using assms(6,8) by simp
  qed
  moreover have "\<not> mNeedNewEvent (parts_served gen ?s j)"
    using parts_served_fields(1) [OF f(1,2) lt, of gen] by simp
  moreover have "min (length cs) j = j" using assms(8) by simp
  ultimately show ?thesis by simp
qed



lemma new_event_fields:
  "mNeedNewEvent (new_event s) = False"
  "mPartCounter (new_event s) = 0"
  "mEventCounter (new_event s) = to_int32 (mEventCounter s + 1)"
  "mMaxEvents (new_event s) = mMaxEvents s"
  "mChunkGranularity (new_event s) = mChunkGranularity s"
  "mInitialSeed (new_event s) = mInitialSeed s"
  "mStack (new_event s) = mStack s"
  "mEventHeader (new_event s) = mEventHeader s"
  "nGenerated (new_event s) = nGenerated s"
  "mGeneratorThread (new_event s) = False"
  by (simp_all add: new_event_def)

lemma InitTask_fields:
  "mNeedNewEvent (InitTask gen setSeed conf header chunkSize seed0 nEv pipe asservice) = True"
  "mEventCounter (InitTask gen setSeed conf header chunkSize seed0 nEv pipe asservice) = 0"
  "mMaxEvents (InitTask gen setSeed conf header chunkSize seed0 nEv pipe asservice) = to_int32 nEv"
  "mChunkGranularity (InitTask gen setSeed conf header chunkSize seed0 nEv pipe asservice)
     = to_int32 chunkSize"
  "mInitialSeed (InitTask gen setSeed conf header chunkSize seed0 nEv pipe asservice)
     = setSeed seed0"
  "mStack (InitTask gen setSeed conf header chunkSize seed0 nEv pipe asservice) = fst (gen 0)"
  "mEventHeader (InitTask gen setSeed conf header chunkSize seed0 nEv pipe asservice)
     = snd (gen 0)"
  "nGenerated (InitTask gen setSeed conf header chunkSize seed0 nEv pipe asservice) = 1"
  "mGeneratorThread (InitTask gen setSeed conf header chunkSize seed0 nEv pipe asservice) = True"
  by (simp_all add: InitTask_def initGenerator_def generateEvent_def Let_def)

text \<open>One whole event: the replies, and the fields of the state after it.\<close>

lemma serve_whole_event:
  assumes "mNeedNewEvent s" and "\<not> mMaxEvents s \<le> mEventCounter s"
    and "1 \<le> mChunkGranularity s" and "mChunkGranularity s \<le> INT_MAX"
    and "int (length (mStack s)) \<le> INT_MAX"
    and "int (length cs) = numberofparts (length (mStack s)) (mChunkGranularity s)"
  shows "serve gen cs s =
           Inr (map (\<lambda>i. Some (ChunkReply (event_chunk (new_event s) i))) [0..<length cs],
                parts_served gen (new_event s) (length cs))"
proof -
  have ne: "cs \<noteq> []"
    using assms(6) numberofparts_ge1 [of "length (mStack s)" "mChunkGranularity s"] by auto
  show ?thesis
    using assms(1,2,3,4,5) _ ne
  proof (rule serve_event)
    show "int (length cs) \<le> numberofparts (length (mStack s)) (mChunkGranularity s)"
      using assms(6) by simp
  qed
qed




lemma served_sizes_particles:
  "served_sizes r = map length (map particles_of (replies_of r))"
  by (simp add: served_sizes_def)

lemma upt_3: "[0..<3] = [0, Suc 0, 2]"
  by (simp add: upt_rec)

lemma replies_1200_by_500:
  assumes "mNeedNewEvent s" and "mEventCounter s < mMaxEvents s"
    and "mChunkGranularity s = 500" and "length (mStack s) = 1200" and "length cs = 3"
  shows "serve gen cs s =
           Inr (map (\<lambda>i. Some (ChunkReply (event_chunk (new_event s) i))) [0, Suc 0, 2],
                parts_served gen (new_event s) 3)"
    and "map (part_slice (mStack s) 500) [0, Suc 0, 2] =
           [drop 700 (mStack s), take 500 (drop 200 (mStack s)), take 200 (mStack s)]"
proof -
  have np: "numberofparts 1200 500 = 3"
    by (simp add: numberofparts_def double_to_int_def INT_MAX_def)
  have a: "mNeedNewEvent s" "\<not> mMaxEvents s \<le> mEventCounter s"
    "1 \<le> mChunkGranularity s" "mChunkGranularity s \<le> INT_MAX"
    "int (length (mStack s)) \<le> INT_MAX"
    "int (length cs) = numberofparts (length (mStack s)) (mChunkGranularity s)"
    using assms by (simp_all add: np INT_MAX_def)
  show "serve gen cs s =
           Inr (map (\<lambda>i. Some (ChunkReply (event_chunk (new_event s) i))) [0, Suc 0, 2],
                parts_served gen (new_event s) 3)"
    using serve_whole_event [OF a, of gen] assms(5) by (simp add: upt_3)
  show "map (part_slice (mStack s) 500) [0, Suc 0, 2] =
           [drop 700 (mStack s), take 500 (drop 200 (mStack s)), take 200 (mStack s)]"
    by (simp add: part_slice_def assms(4))
qed

text \<open>
  The event counter stays non-negative: it is 0 after \<^verbatim>\<open>InitTask\<close> and after a
  reconfiguration, and a request leaves it as it is or adds one.
\<close>

lemma after_part_counter: "mEventCounter (after_part gen s) = mEventCounter s"
  by (simp add: after_part_def Let_def generateEvent_def)

lemma HandleRequest_counter_nonneg:
  assumes "HandleRequest gen sendcode requeststring s = Inr (b, m, s')"
    and "0 \<le> mEventCounter s" and "mEventCounter s < INT_MAX"
  shows "0 \<le> mEventCounter s'"
proof (cases "requeststring = ''primrequest''")
  case False
  with assms(1) have "s' = s"
    by (simp add: HandleRequest_def HandleConfigRequest_def split: if_splits)
  with assms(2) show ?thesis by simp
next
  case True
  have inc: "to_int32 (mEventCounter s + 1) = mEventCounter s + 1"
    using assms(2,3) by (intro to_int32_id) simp_all
  have ne: "0 \<le> mEventCounter (new_event s)"
    using assms(2) by (simp add: new_event_def inc)
  show ?thesis
  proof (cases "mNeedNewEvent s")
    case False
    from assms(1) have "s' = after_part gen s"
      unfolding True HandleRequest_part_any [OF False]
      by (simp split: sum.splits if_splits)
    with assms(2) show ?thesis by (simp add: after_part_counter)
  next
    case need: True
    show ?thesis
    proof (cases "mMaxEvents s \<le> mEventCounter s")
      case True
      from assms(1) have "s' = new_event s"
        unfolding \<open>requeststring = ''primrequest''\<close> HandleRequest_no_work [OF True need]
        by simp
      with ne show ?thesis by simp
    next
      case False
      have nn: "\<not> mNeedNewEvent (new_event s)" "\<not> mGeneratorThread (new_event s)"
        by (simp_all add: new_event_def)
      from assms(1) have "s' = after_part gen (new_event s)"
        unfolding \<open>requeststring = ''primrequest''\<close> HandleRequest_new_event [OF need False]
          HandleRequest_part [OF nn]
        by (simp split: sum.splits)
      with ne show ?thesis by (simp add: after_part_counter)
    qed
  qed
qed

subsection \<open>The example server\<close>

lemma example_server_fields:
  "mEventCounter example_server = 0"
  "mMaxEvents example_server = 2"
  "mNeedNewEvent example_server = True"
  "mPartCounter example_server = 0"
  "mChunkGranularity example_server = 2"
  "mStack example_server = [10]"
  "nGenerated example_server = 1"
  "mPipeToDriver example_server = - 1"
  "mGeneratorThread example_server = True"
  by (simp_all add: example_server_def InitTask_def initGenerator_def generateEvent_def
        example_gen_def Let_def to_int32_def)

subsection \<open>Claim C1: the parts of one event\<close>

text \<open>
  Claim C1, amended. Let the granularity \<open>g\<close> and the number \<open>n\<close> of primaries of the
  event on the stack lie in the range of an \<^verbatim>\<open>int\<close>, \<open>1 \<le> g \<le> 2 ^ 31 - 1\<close> and
  \<open>n \<le> 2 ^ 31 - 1\<close>, in a state where the next request starts this event
  (\<open>mNeedNewEvent\<close>) and work is available. Then the next \<open>max 1 \<lceil>n / g\<rceil>\<close> requests
  (that many send codes \<open>cs\<close>, whatever their values) each hand a chunk to \<^verbatim>\<open>Send\<close>;
  the chunks are the slices \<open>part_slice\<close> of the sequence, so that, taken last chunk
  first, they concatenate to the primary sequence: every primary is served exactly once.
  All chunks carry the number of this event, the parts are numbered from 1, each chunk
  announces \<open>max 1 \<lceil>n / g\<rceil>\<close> parts, and the event is complete (\<open>mNeedNewEvent\<close> is set
  again) after the last of them and not before.
\<close>

theorem event_served_in_parts:
  assumes "mNeedNewEvent s" and "mEventCounter s < mMaxEvents s"
    and "0 \<le> mEventCounter s" and "mMaxEvents s \<le> INT_MAX"
    and "1 \<le> mChunkGranularity s" and "mChunkGranularity s \<le> INT_MAX"
    and "int (length (mStack s)) \<le> INT_MAX"
    and "int (length cs) = numberofparts (length (mStack s)) (mChunkGranularity s)"
  shows "\<exists>chunks s'.
           serve gen cs s = Inr (map (\<lambda>c. Some (ChunkReply c)) chunks, s') \<and>
           int (length chunks) = numberofparts (length (mStack s)) (mChunkGranularity s) \<and>
           map mParticles chunks =
             map (part_slice (mStack s) (mChunkGranularity s)) [0..<length cs] \<and>
           concat (rev (map mParticles chunks)) = mStack s \<and>
           mset (concat (map mParticles chunks)) = mset (mStack s) \<and>
           map (\<lambda>c. eventID (mSubEventInfo c)) chunks =
             replicate (length cs) (mEventCounter s + 1) \<and>
           map (\<lambda>c. part (mSubEventInfo c)) chunks = map (\<lambda>i. int i + 1) [0..<length cs] \<and>
           map (\<lambda>c. nparts (mSubEventInfo c)) chunks =
             replicate (length cs) (numberofparts (length (mStack s)) (mChunkGranularity s)) \<and>
           mNeedNewEvent s' \<and> mEventCounter s' = mEventCounter s + 1 \<and>
           (\<forall>j. 0 < j \<and> j < length cs \<longrightarrow>
              (\<exists>ms sj. serve gen (take j cs) s = Inr (ms, sj) \<and> \<not> mNeedNewEvent sj))"
proof -
  let ?s = "new_event s"
  let ?k = "length cs"
  let ?chunks = "map (event_chunk ?s) [0..<?k]"
  let ?s' = "parts_served gen ?s ?k"
  have nw: "\<not> mMaxEvents s \<le> mEventCounter s" using assms(2) by simp
  have f: "mStack ?s = mStack s" "mChunkGranularity ?s = mChunkGranularity s"
    by (simp_all add: new_event_def)
  have ev: "mEventCounter ?s = mEventCounter s + 1"
    using assms(2,3,4) by (simp add: new_event_def to_int32_id)
  have k: "int ?k = numberofparts (length (mStack ?s)) (mChunkGranularity ?s)"
    using assms(8) by (simp add: f)
  have ne: "cs \<noteq> []"
    using assms(8) numberofparts_ge1 [of "length (mStack s)" "mChunkGranularity s"] by auto
  have run: "serve gen cs s = Inr (map (\<lambda>c. Some (ChunkReply c)) ?chunks, ?s')"
    using serve_event [OF assms(1) nw assms(5,6,7) _ ne, of gen] assms(8)
    by (simp add: comp_def)
  have parts: "map mParticles ?chunks =
                 map (part_slice (mStack s) (mChunkGranularity s)) [0..<?k]"
    by (simp add: event_chunk_def f)
  have cover: "concat (rev (map mParticles ?chunks)) = mStack s"
    using event_chunks_particles [of ?s ?k] assms(5,7) k by (simp add: f)
  have "mset (concat (map mParticles ?chunks)) = mset (concat (rev (map mParticles ?chunks)))"
    by (rule mset_concat_rev [symmetric])
  with cover have ms: "mset (concat (map mParticles ?chunks)) = mset (mStack s)" by simp
  have ids: "map (\<lambda>c. eventID (mSubEventInfo c)) ?chunks = replicate ?k (mEventCounter s + 1)"
    by (simp add: event_chunk_def ev comp_def map_replicate_const)
  have ps: "map (\<lambda>c. part (mSubEventInfo c)) ?chunks = map (\<lambda>i. int i + 1) [0..<?k]"
    by (simp add: event_chunk_def comp_def)
  have np: "map (\<lambda>c. nparts (mSubEventInfo c)) ?chunks =
              replicate ?k (numberofparts (length (mStack s)) (mChunkGranularity s))"
    by (simp add: event_chunk_def f comp_def map_replicate_const)
  have fin: "?s' = generateEvent gen ((pipe_written ?s)\<lparr>mPartCounter := int ?k,
                                                        mNeedNewEvent := True,
                                                        mGeneratorThread := True\<rparr>)"
    using k by (rule parts_served_all)
  have finished: "mNeedNewEvent ?s'" "mEventCounter ?s' = mEventCounter s + 1"
    unfolding fin by (simp_all add: generateEvent_def ev)
  have pre: "\<forall>j. 0 < j \<and> j < length cs \<longrightarrow>
              (\<exists>ms sj. serve gen (take j cs) s = Inr (ms, sj) \<and> \<not> mNeedNewEvent sj)"
    using serve_event_prefix [OF assms(1) nw assms(5,6,7,8)] by blast
  have len: "int (length ?chunks) = numberofparts (length (mStack s)) (mChunkGranularity s)"
    using assms(8) by simp
  from run len parts cover ms ids ps np finished pre show ?thesis by blast
qed

theorem event_served_in_parts_witness:
  "mNeedNewEvent (example_server\<lparr>mStack := [1, 2, 3, 4, 5]\<rparr>) \<and>
   mEventCounter (example_server\<lparr>mStack := [1, 2, 3, 4, 5]\<rparr>)
     < mMaxEvents (example_server\<lparr>mStack := [1, 2, 3, 4, 5]\<rparr>) \<and>
   0 \<le> mEventCounter (example_server\<lparr>mStack := [1, 2, 3, 4, 5]\<rparr>) \<and>
   mMaxEvents (example_server\<lparr>mStack := [1, 2, 3, 4, 5]\<rparr>) \<le> INT_MAX \<and>
   1 \<le> mChunkGranularity (example_server\<lparr>mStack := [1, 2, 3, 4, 5]\<rparr>) \<and>
   mChunkGranularity (example_server\<lparr>mStack := [1, 2, 3, 4, 5]\<rparr>) \<le> INT_MAX \<and>
   int (length (mStack (example_server\<lparr>mStack := [1, 2, 3, 4, 5]\<rparr>))) \<le> INT_MAX \<and>
   int (length [1, 1, 1::int]) =
     numberofparts (length (mStack (example_server\<lparr>mStack := [1, 2, 3, 4, 5]\<rparr>)))
       (mChunkGranularity (example_server\<lparr>mStack := [1, 2, 3, 4, 5]\<rparr>)) \<and>
   map particles_of
     (replies_of (serve example_gen [1, 1, 1] (example_server\<lparr>mStack := [1, 2, 3, 4, 5]\<rparr>)))
     = [[4, 5], [2, 3], [1]]"
proof -
  let ?s = "example_server\<lparr>mStack := [1, 2, 3, 4, 5]\<rparr>"
  have h: "mNeedNewEvent ?s" "mEventCounter ?s < mMaxEvents ?s" "0 \<le> mEventCounter ?s"
    "mMaxEvents ?s \<le> INT_MAX" "1 \<le> mChunkGranularity ?s" "mChunkGranularity ?s \<le> INT_MAX"
    "int (length (mStack ?s)) \<le> INT_MAX"
    "int (length [1, 1, 1::int]) = numberofparts (length (mStack ?s)) (mChunkGranularity ?s)"
    by (simp_all add: example_server_fields INT_MAX_def numberofparts_def double_to_int_def)
  from event_served_in_parts [OF h, of example_gen]
  obtain chunks s' where
    run: "serve example_gen [1, 1, 1] ?s = Inr (map (\<lambda>c. Some (ChunkReply c)) chunks, s')"
    and ps: "map mParticles chunks =
               map (part_slice (mStack ?s) (mChunkGranularity ?s)) [0..<length [1, 1, 1::int]]"
    by blast
  have "map particles_of (replies_of (serve example_gen [1, 1, 1] ?s)) = map mParticles chunks"
    unfolding run by (simp add: replies_of_def particles_of_def comp_def)
  also have "\<dots> = [[4, 5], [2, 3], [1]]"
    unfolding ps by (simp add: example_server_fields upt_3 part_slice_def)
  finally show ?thesis using h by simp
qed

text \<open>
  The claim as stated, for every \<open>n \<ge> 0\<close>, fails where the size of the event does not
  fit in an \<^verbatim>\<open>int\<close>. With \<open>2 ^ 31\<close> primaries and \<open>g = 2 ^ 31 - 1\<close> there are two
  parts. In the first request the end index \<open>2 ^ 31\<close> is stored in an \<^verbatim>\<open>int\<close> as
  \<open>- 2 ^ 31\<close> and clamped to 0, so the chunk is empty. In the second request the end
  index is 1 and the start index is clamped to 0 (its product \<open>2 * g\<close> leaves the range
  of \<^verbatim>\<open>int\<close>; with an end index of 1 no value of it lets more than one primary
  through), so \<open>primaries[0:1]\<close> is served. The event is then complete, and one primary
  of \<open>2 ^ 31\<close> has been served.
\<close>

theorem event_served_in_parts_counterexample:
  "length (mStack (example_server\<lparr>mStack := replicate 2147483648 0,
                                   mChunkGranularity := 2147483647\<rparr>)) = 2147483648 \<and>
   numberofparts 2147483648 2147483647 = 2 \<and>
   served_sizes (serve example_gen [1, 1]
      (example_server\<lparr>mStack := replicate 2147483648 0, mChunkGranularity := 2147483647\<rparr>))
     = [0, 1] \<and>
   sum_list (served_sizes (serve example_gen [1, 1]
      (example_server\<lparr>mStack := replicate 2147483648 0, mChunkGranularity := 2147483647\<rparr>)))
     \<noteq> length (mStack (example_server\<lparr>mStack := replicate 2147483648 0,
                                           mChunkGranularity := 2147483647\<rparr>))"
  by (simp add: served_sizes_def replies_of_def particles_of_def HandleRequest_def Let_def
        example_server_def InitTask_def
        initGenerator_def generateEvent_def example_gen_def slice_bounds_def endindex0_def
        startindex0_def to_int32_def to_size_t_def numberofparts_def double_to_int_def
        INT_MAX_def copy_loop.simps)

subsection \<open>Claim C2: the end-of-work sentinel\<close>

text \<open>
  Claim C2. In a state whose event counter is not negative (it starts at 0, is reset to 0
  and is only incremented), a \<^verbatim>\<open>"primrequest"\<close> emits the end-of-work sentinel exactly
  when, at the start of the request, \<open>mEventCounter \<ge> mMaxEvents\<close> and
  \<open>mNeedNewEvent\<close> holds. In that case the chunk has no primaries, its event number is
  \<open>- 1\<close>, and the state only goes through the new-event block: no slice is computed and
  the part counter is not advanced.
\<close>

theorem sentinel_iff:
  assumes "0 \<le> mEventCounter s" and "mEventCounter s \<le> INT_MAX"
  shows "emits_sentinel (HandleRequest gen sendcode ''primrequest'' s) =
           (mMaxEvents s \<le> mEventCounter s \<and> mNeedNewEvent s) \<and>
         (mMaxEvents s \<le> mEventCounter s \<and> mNeedNewEvent s \<longrightarrow>
            HandleRequest gen sendcode ''primrequest'' s =
              Inr (False,
                   Some (ChunkReply \<lparr>mSubEventInfo = chunk_info False (new_event s),
                                     mParticles = []\<rparr>),
                   new_event s))"
proof (cases "mMaxEvents s \<le> mEventCounter s \<and> mNeedNewEvent s")
  case True
  then show ?thesis
    by (simp add: HandleRequest_no_work emits_sentinel_def is_sentinel_def chunk_info_def)
next
  case False
  have id: "mEventCounter (new_event s) \<noteq> - 1"
    using to_int32_succ_ne [OF assms] by (simp add: new_event_def)
  have "\<not> emits_sentinel (HandleRequest gen sendcode ''primrequest'' s)"
  proof (cases "mNeedNewEvent s")
    case True
    with False have nw: "\<not> mMaxEvents s \<le> mEventCounter s" by simp
    have nn: "\<not> mNeedNewEvent (new_event s)" "\<not> mGeneratorThread (new_event s)"
      by (simp_all add: new_event_def)
    show ?thesis
      unfolding HandleRequest_new_event [OF True nw] HandleRequest_part [OF nn]
      using id
      by (simp add: emits_sentinel_def is_sentinel_def chunk_info_def split: sum.split)
  next
    case False
    show ?thesis
      unfolding HandleRequest_part_any [OF False]
      using assms(1)
      by (simp add: emits_sentinel_def is_sentinel_def chunk_info_def split: sum.split)
  qed
  with False show ?thesis by blast
qed

theorem sentinel_iff_witness:
  "0 \<le> mEventCounter (example_server\<lparr>mEventCounter := 2\<rparr>) \<and>
   mEventCounter (example_server\<lparr>mEventCounter := 2\<rparr>) \<le> INT_MAX \<and>
   mMaxEvents (example_server\<lparr>mEventCounter := 2\<rparr>)
     \<le> mEventCounter (example_server\<lparr>mEventCounter := 2\<rparr>) \<and>
   mNeedNewEvent (example_server\<lparr>mEventCounter := 2\<rparr>) \<and>
   emits_sentinel
     (HandleRequest example_gen 1 ''primrequest'' (example_server\<lparr>mEventCounter := 2\<rparr>)) \<and>
   \<not> emits_sentinel (HandleRequest example_gen 1 ''primrequest'' example_server)"
proof -
  have h1: "0 \<le> mEventCounter (example_server\<lparr>mEventCounter := 2\<rparr>)" by simp
  have h2: "mEventCounter (example_server\<lparr>mEventCounter := 2\<rparr>) \<le> INT_MAX"
    by (simp add: INT_MAX_def)
  have c: "mMaxEvents (example_server\<lparr>mEventCounter := 2\<rparr>)
             \<le> mEventCounter (example_server\<lparr>mEventCounter := 2\<rparr>) \<and>
           mNeedNewEvent (example_server\<lparr>mEventCounter := 2\<rparr>)"
    by (simp add: example_server_fields)
  have g1: "0 \<le> mEventCounter example_server" by (simp add: example_server_fields)
  have g2: "mEventCounter example_server \<le> INT_MAX"
    by (simp add: example_server_fields INT_MAX_def)
  have d: "\<not> (mMaxEvents example_server \<le> mEventCounter example_server \<and>
               mNeedNewEvent example_server)"
    by (simp add: example_server_fields)
  from sentinel_iff [OF h1 h2, of example_gen 1] c
  have e1: "emits_sentinel
     (HandleRequest example_gen 1 ''primrequest'' (example_server\<lparr>mEventCounter := 2\<rparr>))"
    by blast
  from sentinel_iff [OF g1 g2, of example_gen 1] d
  have e2: "\<not> emits_sentinel (HandleRequest example_gen 1 ''primrequest'' example_server)"
    by blast
  from h1 h2 c e1 e2 show ?thesis by blast
qed

subsection \<open>Claim C3: the request after the last event\<close>




subsection \<open>Claim C4: the generator cache\<close>

text \<open>
  Whatever the name of the generator, \<^verbatim>\<open>initGenerator\<close> takes an instance that the
  cache holds for that name and constructs none.
\<close>

lemma initGenerator_takes_cached:
  assumes "mPrimGeneratorCache s (mGenerator (mSimConfig s)) = Some g"
  shows "mPrimGen (initGenerator gen s) = Some g"
    and "nInstances (initGenerator gen s) = nInstances s"
  using assms by (simp_all add: initGenerator_def generateEvent_def Let_def)

text \<open>
  Claim C4. The claim says that for the identities \<^verbatim>\<open>"extkin"\<close> and \<^verbatim>\<open>"extkinO2"\<close> the
  cache lookup is skipped and a fresh generator is constructed. The guard of the lookup
  is a disjunction of two inequalities, which holds for every name, so the lookup is
  never skipped. A server is initialised with \<^verbatim>\<open>"extkin"\<close> and no events to serve; its
  first request joins the generator thread and is answered with the sentinel. When it is
  then reconfigured with \<^verbatim>\<open>"extkin"\<close> and another kinematics file, it keeps the instance
  constructed first, and no second instance is constructed.
\<close>

theorem initGenerator_extkin_cached:
  "let s0 = InitTask gen setSeed
              \<lparr>mGenerator = ''extkin'', mTrigger = trig, mExtKinFileName = ''first.root''\<rparr>
              header chunkSize seed0 0 pipe asservice;
       s1 = new_event s0
   in mPrimGen s0 = Some 0 \<and> nInstances s0 = 1 \<and>
      HandleRequest gen sendcode ''primrequest'' s0 =
        Inr (False,
             Some (ChunkReply \<lparr>mSubEventInfo = chunk_info False s1, mParticles = []\<rparr>), s1) \<and>
      (case ReInit gen setSeed
              \<lparr>stop = False, configFile = cf, keyValueTokens = kv, startSeed = sd, nEvents = ne,
               generator = ''extkin'', trigger = trig, extKinfileName = ''second.root''\<rparr> s1 of
         Inl e \<Rightarrow> False
       | Inr (b, s2) \<Rightarrow>
           b \<and> mPrimGen s2 = Some 0 \<and> nInstances s2 = 1 \<and>
           mExtKinFileName (mSimConfig s2) = ''second.root'')"
proof -
  let ?s0 = "InitTask gen setSeed
              \<lparr>mGenerator = ''extkin'', mTrigger = trig, mExtKinFileName = ''first.root''\<rparr>
              header chunkSize seed0 0 pipe asservice"
  have i: "mPrimGen ?s0 = Some 0" "nInstances ?s0 = 1"
    by (simp_all add: InitTask_def initGenerator_def generateEvent_def Let_def)
  have nw: "mMaxEvents ?s0 \<le> mEventCounter ?s0" "mNeedNewEvent ?s0"
    by (simp_all add: InitTask_fields to_int32_def)
  have r: "HandleRequest gen sendcode ''primrequest'' ?s0 =
        Inr (False,
             Some (ChunkReply \<lparr>mSubEventInfo = chunk_info False (new_event ?s0),
                               mParticles = []\<rparr>), new_event ?s0)"
    using nw by (rule HandleRequest_no_work)
  have re: "case ReInit gen setSeed
              \<lparr>stop = False, configFile = cf, keyValueTokens = kv, startSeed = sd, nEvents = ne,
               generator = ''extkin'', trigger = trig, extKinfileName = ''second.root''\<rparr>
              (new_event ?s0) of
         Inl e \<Rightarrow> False
       | Inr (b, s2) \<Rightarrow>
           b \<and> mPrimGen s2 = Some 0 \<and> nInstances s2 = 1 \<and>
           mExtKinFileName (mSimConfig s2) = ''second.root''"
    by (simp add: ReInit_def new_event_def InitTask_def initGenerator_def generateEvent_def
          Let_def)
  from i r re show ?thesis by (simp only: Let_def)
qed

subsection \<open>Claim C5: unknown requests\<close>

text \<open>
  Claim C5. The claim asks for a reply with an unknown-request indicator for every payload
  other than \<^verbatim>\<open>"configrequest"\<close> and \<^verbatim>\<open>"primrequest"\<close>. The code returns \<^verbatim>\<open>true\<close>
  without handing anything to \<^verbatim>\<open>Send\<close> (the comment at line 313 says that the reply is
  still to be written): for the payload \<^verbatim>\<open>"statusrequest"\<close> no message is sent and the
  state is unchanged.
\<close>

theorem HandleRequest_unknown_no_reply:
  "HandleRequest gen sendcode ''statusrequest'' s = Inr (True, None, s)"
  by (simp add: HandleRequest_def)

subsection \<open>Claim C6: 1200 primaries in chunks of 500\<close>

text \<open>
  Claim C6, amended. With granularity 500 and an event of 1200 primaries, the three
  requests for that event serve \<open>primaries[700:1200]\<close>, \<open>primaries[200:700]\<close> and
  \<open>primaries[0:200]\<close>, in that order: chunks of sizes 500, 500, 200 (the slicing starts
  at the tail, so the short chunk comes last), and every reply announces 3 parts.
\<close>

theorem parts_of_1200_by_500:
  assumes "mNeedNewEvent s" and "mEventCounter s < mMaxEvents s"
    and "mChunkGranularity s = 500" and "length (mStack s) = 1200" and "length cs = 3"
  shows "map particles_of (replies_of (serve gen cs s)) =
           [drop 700 (mStack s), take 500 (drop 200 (mStack s)), take 200 (mStack s)] \<and>
         served_sizes (serve gen cs s) = [500, 500, 200] \<and>
         served_nparts (serve gen cs s) = [3, 3, 3]"
proof -
  have np: "numberofparts 1200 500 = 3"
    by (simp add: numberofparts_def double_to_int_def INT_MAX_def)
  have a: "mNeedNewEvent s" "\<not> mMaxEvents s \<le> mEventCounter s"
    "1 \<le> mChunkGranularity s" "mChunkGranularity s \<le> INT_MAX"
    "int (length (mStack s)) \<le> INT_MAX"
    "int (length cs) = numberofparts (length (mStack s)) (mChunkGranularity s)"
    using assms by (simp_all add: np INT_MAX_def)
  have run: "serve gen cs s =
           Inr (map (\<lambda>i. Some (ChunkReply (event_chunk (new_event s) i))) [0..<3],
                parts_served gen (new_event s) 3)"
    using serve_whole_event [OF a, of gen] assms(5) by simp
  have p0: "part_slice (mStack s) 500 0 = drop 700 (mStack s)"
    by (simp add: part_slice_def assms(4))
  have p1: "part_slice (mStack s) 500 (Suc 0) = take 500 (drop 200 (mStack s))"
    by (simp add: part_slice_def assms(4))
  have p2: "part_slice (mStack s) 500 2 = take 200 (mStack s)"
    by (simp add: part_slice_def assms(4))
  have ps: "map particles_of (replies_of (serve gen cs s)) =
           [drop 700 (mStack s), take 500 (drop 200 (mStack s)), take 200 (mStack s)]"
    unfolding run replies_of_def
    by (simp add: upt_3 particles_of_def event_chunk_def new_event_fields assms(3) p0 p1 p2)
  have sz: "served_sizes (serve gen cs s) = map length (map particles_of (replies_of (serve gen cs s)))"
    by (simp add: served_sizes_def)
  have sizes: "served_sizes (serve gen cs s) = [500, 500, 200]"
    unfolding sz ps by (simp add: assms(4))
  have nps: "served_nparts (serve gen cs s) = [3, 3, 3]"
    unfolding run served_nparts_def replies_of_def
    by (simp add: upt_3 event_chunk_def new_event_fields assms(3,4) np)
  from ps sizes nps show ?thesis by simp
qed

theorem parts_of_1200_by_500_witness:
  "mNeedNewEvent (example_server\<lparr>mStack := replicate 1200 7, mChunkGranularity := 500\<rparr>) \<and>
   mEventCounter (example_server\<lparr>mStack := replicate 1200 7, mChunkGranularity := 500\<rparr>)
     < mMaxEvents (example_server\<lparr>mStack := replicate 1200 7, mChunkGranularity := 500\<rparr>) \<and>
   mChunkGranularity (example_server\<lparr>mStack := replicate 1200 7, mChunkGranularity := 500\<rparr>)
     = 500 \<and>
   length (mStack (example_server\<lparr>mStack := replicate 1200 7, mChunkGranularity := 500\<rparr>))
     = 1200 \<and>
   length [1, 1, 1::int] = 3 \<and>
   served_sizes (serve example_gen [1, 1, 1]
     (example_server\<lparr>mStack := replicate 1200 7, mChunkGranularity := 500\<rparr>)) = [500, 500, 200]"
proof -
  let ?s = "example_server\<lparr>mStack := replicate 1200 7, mChunkGranularity := 500\<rparr>"
  have h: "mNeedNewEvent ?s" "mEventCounter ?s < mMaxEvents ?s" "mChunkGranularity ?s = 500"
    "length (mStack ?s) = 1200" "length [1, 1, 1::int] = 3"
    by (simp_all add: example_server_fields)
  from parts_of_1200_by_500 [OF h, of example_gen] h show ?thesis by blast
qed

text \<open>
  The claim as stated gives the sizes as 200, 500, 500 in that order. For an event of
  1200 primaries served by the example server with granularity 500 the sizes are
  500, 500, 200.
\<close>

theorem parts_of_1200_by_500_counterexample:
  "served_sizes (serve example_gen [1, 1, 1]
     (example_server\<lparr>mStack := replicate 1200 7, mChunkGranularity := 500\<rparr>)) = [500, 500, 200] \<and>
   served_sizes (serve example_gen [1, 1, 1]
     (example_server\<lparr>mStack := replicate 1200 7, mChunkGranularity := 500\<rparr>)) \<noteq> [200, 500, 500]"
proof -
  let ?s = "example_server\<lparr>mStack := replicate 1200 7, mChunkGranularity := 500\<rparr>"
  have h: "mNeedNewEvent ?s" "mEventCounter ?s < mMaxEvents ?s" "mChunkGranularity ?s = 500"
    "length (mStack ?s) = 1200" "length [1, 1, 1::int] = 3"
    by (simp_all add: example_server_fields)
  note r = replies_1200_by_500(1) [OF h, of example_gen] replies_1200_by_500(2) [OF h]
  have "map particles_of (replies_of (serve example_gen [1, 1, 1] ?s)) =
          map (part_slice (mStack ?s) 500) [0, Suc 0, 2]"
    unfolding r(1) by (simp add: replies_of_def particles_of_def event_chunk_def new_event_fields)
  then have "served_sizes (serve example_gen [1, 1, 1] ?s) = [500, 500, 200]"
    unfolding served_sizes_particles r(2) by simp
  then show ?thesis by simp
qed

subsection \<open>Claim C7: reconfiguration\<close>

text \<open>
  What \<^verbatim>\<open>ReInit\<close> does, by the flag \<open>stop\<close> and the state of the thread handle: with
  \<open>stop\<close> set it returns false and leaves the state as it is; without it and with a
  handle that is not joinable it returns true, and the new state has
  \<open>mEventCounter = 0\<close>, \<open>mPartCounter = 0\<close> and \<open>mNeedNewEvent\<close> set; without it and with
  a joinable handle the assignment at line 248 terminates the process.
\<close>

lemma ReInit_stop: "stop reconfig \<Longrightarrow> ReInit gen setSeed reconfig s = Inr (False, s)"
  by (simp add: ReInit_def)

lemma ReInit_joined:
  assumes "\<not> stop reconfig" and "\<not> mGeneratorThread s"
  shows "\<exists>s'. ReInit gen setSeed reconfig s = Inr (True, s') \<and>
           mEventCounter s' = 0 \<and> mPartCounter s' = 0 \<and> mNeedNewEvent s'"
  using assms
  by (simp add: ReInit_def initGenerator_def generateEvent_def Let_def split: option.split)

lemma ReInit_pending:
  assumes "\<not> stop reconfig" and "mGeneratorThread s"
  shows "ReInit gen setSeed reconfig s = Inl Terminate"
  using assms by (simp add: ReInit_def Let_def)

text \<open>
  Claim C7. The claim says that \<^verbatim>\<open>ReInit\<close> without \<open>stop\<close> returns true from every
  state. The destructor (lines 56 to 58) and \<^verbatim>\<open>HandleRequest\<close> (lines 325 to 327) join
  the generator thread when the handle is joinable; \<^verbatim>\<open>ReInit\<close> assigns a new thread to
  the handle without joining. The example service hands out the only part of its first
  event and launches the next generation; the send fails (code 0), so the request returns
  false with the handle joinable, and \<^verbatim>\<open>ConditionalRun\<close>, which runs a service, waits
  for the control input and passes it to \<^verbatim>\<open>ReInit\<close>. \<^verbatim>\<open>ReInit\<close> without \<open>stop\<close>
  then does not return: the process is terminated.
\<close>

theorem ReInit_terminates_with_pending_thread:
  "(case HandleRequest example_gen 0 ''primrequest'' example_service of
      Inl e \<Rightarrow> False
    | Inr (b, m, s1) \<Rightarrow>
        \<not> b \<and> mAsService s1 \<and> mNeedNewEvent s1 \<and> mGeneratorThread s1 \<and>
        ReInit example_gen (\<lambda>x. x)
          \<lparr>stop = False, configFile = [], keyValueTokens = [], startSeed = 1, nEvents = 5,
           generator = ''pythia8'', trigger = [], extKinfileName = []\<rparr> s1 = Inl Terminate)"
  by (simp add: HandleRequest_def Let_def example_service_def InitTask_def
        initGenerator_def generateEvent_def example_gen_def slice_bounds_def endindex0_def
        startindex0_def to_int32_def to_size_t_def numberofparts_def double_to_int_def
        INT_MAX_def copy_loop.simps ReInit_def)

subsection \<open>Claim C8: the status poll of the worker\<close>

text \<open>
  Claim C8. Whatever distinct integers stand for the five states: for the code of a state,
  \<^verbatim>\<open>isWorkAvailable\<close> returns true exactly when the send and the receive succeeded and
  the state is Initializing, WaitingEvent or ReadyToServe (so it returns false for Idle
  and Stopped, and whenever the send or the receive fails); for an integer that is the
  code of no state it returns false.
\<close>

theorem isWorkAvailable_states:
  assumes "inj enc"
  shows "isWorkAvailable enc sendcode code (enc st) =
           (0 < sendcode \<and> 0 < code \<and> (st = Initializing \<or> st = WaitingEvent \<or> st = ReadyToServe))
         \<and> (state \<notin> range enc \<longrightarrow> \<not> isWorkAvailable enc sendcode code state)"
proof -
  have eq: "\<And>a b. (enc a = enc b) = (a = b)"
    using assms by (simp add: inj_eq)
  have "state \<notin> range enc \<Longrightarrow> \<not> isWorkAvailable enc sendcode code state"
    by (auto simp add: isWorkAvailable_def)
  moreover have "isWorkAvailable enc sendcode code (enc st) =
           (0 < sendcode \<and> 0 < code \<and> (st = Initializing \<or> st = WaitingEvent \<or> st = ReadyToServe))"
    by (cases st) (simp_all add: isWorkAvailable_def eq)
  ultimately show ?thesis by blast
qed

lemma inj_declared_code: "inj declared_code"
proof (rule injI)
  fix a b assume "declared_code a = declared_code b"
  then show "a = b"
    by (cases a; cases b) (simp_all add: declared_code_def)
qed

theorem isWorkAvailable_states_witness:
  "inj declared_code \<and>
   isWorkAvailable declared_code 4 4 (declared_code WaitingEvent) \<and>
   \<not> isWorkAvailable declared_code 4 4 (declared_code Idle) \<and>
   \<not> isWorkAvailable declared_code 4 (- 1) (declared_code ReadyToServe) \<and>
   (7 \<notin> range declared_code \<and> \<not> isWorkAvailable declared_code 4 4 7)"
proof -
  have r: "7 \<notin> range declared_code"
  proof
    assume "7 \<in> range declared_code"
    then obtain st where "declared_code st = 7" by auto
    then show False by (cases st) (simp_all add: declared_code_def)
  qed
  show ?thesis
    using isWorkAvailable_states [OF inj_declared_code, of 4 4 WaitingEvent 7]
      isWorkAvailable_states [OF inj_declared_code, of 4 4 Idle 7]
      isWorkAvailable_states [OF inj_declared_code, of 4 "- 1" ReadyToServe 7]
      r inj_declared_code
    by simp
qed

subsection \<open>Claim C9: the worker loop\<close>

lemma receive_loop_timeouts:
  assumes "t \<le> 2" and "\<forall>j<t. fst (recv j) = - 1" and "j \<le> t"
  shows "receive_loop engine recv j w = receive_loop engine recv t w"
  using assms(3)
proof (induction "t - j" arbitrary: j)
  case 0
  then show ?case by simp
next
  case (Suc d)
  then have lt: "j < t" by simp
  with assms(2) have c: "fst (recv j) = - 1" by simp
  have "receive_loop engine recv j w = receive_loop engine recv (j + 1) w"
    using c lt assms(1)
    by (subst receive_loop.simps) (simp add: case_prod_beta Let_def)
  also have "\<dots> = receive_loop engine recv t w"
    using Suc lt by (intro Suc.hyps(1)) simp_all
  finally show ?case .
qed

lemma receive_loop_received:
  assumes "0 < fst (recv t)"
  shows "receive_loop engine recv t w =
           (if is_sentinel (snd (recv t)) then (Some False, w)
            else (None, process_chunk engine (snd (recv t)) w))"
  using assms
  by (subst receive_loop.simps) (simp add: case_prod_beta Let_def is_sentinel_def)

text \<open>
  Claim C9. When the status check lets the worker go on, the request is sent, and a chunk
  is received at one of the three attempts (the attempts before it having timed out with
  code \<open>- 1\<close>): if the chunk has no primaries and event number \<open>- 1\<close>, \<^verbatim>\<open>Kernel\<close>
  returns false and nothing is handed to the application or the engine; any other chunk
  is handed to the transport step, that is, its primaries and its sub-event information
  are given to the application, the random generator is seeded with the seed of the
  chunk, and the engine is called once (\<^verbatim>\<open>ProcessEvent\<close> for Geant4, \<^verbatim>\<open>ProcessRun(1)\<close>
  otherwise), and \<^verbatim>\<open>Kernel\<close> returns true.
\<close>

theorem Kernel_received_chunk:
  assumes "status_ok enc status" and "0 < sendcode"
    and "t \<le> 2" and "\<forall>j<t. fst (recv j) = - 1" and "0 < fst (recv t)"
  shows "Kernel enc engine status sendcode recv w =
           (if length (mParticles (snd (recv t))) = 0 \<and>
               eventID (mSubEventInfo (snd (recv t))) = - 1
            then (False, w)
            else (True,
                  w\<lparr>appPrimaries := mParticles (snd (recv t)),
                    appSubEventInfo := Some (mSubEventInfo (snd (recv t))),
                    randomSeed := seed (mSubEventInfo (snd (recv t))),
                    vmcCalls := vmcCalls w @
                      [if engine = ''TGeant4'' then ProcessEvent else ProcessRun 1]\<rparr>))"
proof -
  have "receive_loop engine recv 0 w = receive_loop engine recv t w"
    using assms(3,4) by (intro receive_loop_timeouts) simp_all
  then have r: "receive_loop engine recv 0 w =
           (if is_sentinel (snd (recv t)) then (Some False, w)
            else (None, process_chunk engine (snd (recv t)) w))"
    using receive_loop_received [of recv t engine w, OF assms(5)] by simp
  have st: "\<not> (case status of None \<Rightarrow> False
             | Some (ssend, scode, sstate) \<Rightarrow> \<not> isWorkAvailable enc ssend scode sstate)"
    using assms(1) by (auto simp add: status_ok_def split: option.splits)
  show ?thesis
    using st assms(2) by (simp add: Kernel_def r is_sentinel_def process_chunk_def)
qed

theorem Kernel_received_chunk_witness:
  "status_ok declared_code None \<and> (0::int) < 3 \<and>
   fst ((\<lambda>j::nat. if j = 0 then (- 1::int, example_chunk 1 [10]) else (5, example_chunk 1 [10])) 0) = - 1 \<and>
   0 < fst ((\<lambda>j::nat. if j = 0 then (- 1::int, example_chunk 1 [10]) else (5, example_chunk 1 [10])) 1) \<and>
   Kernel declared_code ''TGeant4'' None 3
     (\<lambda>j. if j = 0 then (- 1, example_chunk 1 [10]) else (5, example_chunk 1 [10]))
     example_worker
     = (True,
        \<lparr>appPrimaries = [10],
         appSubEventInfo =
           Some \<lparr>eventID = 1, maxEvents = 2, part = 1, nparts = 1, seed = 8, index = 0,
                 mMCEventHeader = 0\<rparr>,
         randomSeed = 8, vmcCalls = [ProcessEvent]\<rparr>) \<and>
   Kernel declared_code ''TGeant3'' None 3
     (\<lambda>j. if j = 0 then (- 1, example_chunk 1 [10]) else (5, example_chunk 1 [10]))
     example_worker
     = (True,
        \<lparr>appPrimaries = [10],
         appSubEventInfo =
           Some \<lparr>eventID = 1, maxEvents = 2, part = 1, nparts = 1, seed = 8, index = 0,
                 mMCEventHeader = 0\<rparr>,
         randomSeed = 8, vmcCalls = [ProcessRun 1]\<rparr>) \<and>
   Kernel declared_code ''TGeant4'' None 3 (\<lambda>j. (5, example_chunk (- 1) [])) example_worker
     = (False, example_worker)"
proof -
  let ?recv = "\<lambda>j::nat. if j = 0 then (- 1::int, example_chunk 1 [10]) else (5, example_chunk 1 [10])"
  let ?last = "\<lambda>j::nat. (5::int, example_chunk (- 1) [])"
  have ok: "status_ok declared_code None" by (simp add: status_ok_def)
  have s: "(0::int) < 3" by simp
  have t1: "(1::nat) \<le> 2" and t0: "(0::nat) \<le> 2" by simp_all
  have to1: "\<forall>j<1. fst (?recv j) = - 1" by simp
  have to0: "\<forall>j<0. fst (?last j) = - 1" by simp
  have r1: "0 < fst (?recv 1)" by simp
  have r0: "0 < fst (?last 0)" by simp
  have k1: "Kernel declared_code ''TGeant4'' None 3 ?recv example_worker
              = (True,
                 \<lparr>appPrimaries = [10],
                  appSubEventInfo =
                    Some \<lparr>eventID = 1, maxEvents = 2, part = 1, nparts = 1, seed = 8, index = 0,
                          mMCEventHeader = 0\<rparr>,
                  randomSeed = 8, vmcCalls = [ProcessEvent]\<rparr>)"
    using Kernel_received_chunk [OF ok s t1 to1 r1, of "''TGeant4''" example_worker]
    by (simp add: example_chunk_def example_worker_def)
  have k3: "Kernel declared_code ''TGeant3'' None 3 ?recv example_worker
              = (True,
                 \<lparr>appPrimaries = [10],
                  appSubEventInfo =
                    Some \<lparr>eventID = 1, maxEvents = 2, part = 1, nparts = 1, seed = 8, index = 0,
                          mMCEventHeader = 0\<rparr>,
                  randomSeed = 8, vmcCalls = [ProcessRun 1]\<rparr>)"
    using Kernel_received_chunk [OF ok s t1 to1 r1, of "''TGeant3''" example_worker]
    by (simp add: example_chunk_def example_worker_def)
  have k0: "Kernel declared_code ''TGeant4'' None 3 ?last example_worker = (False, example_worker)"
    using Kernel_received_chunk [OF ok s t0 to0 r0, of "''TGeant4''" example_worker]
    by (simp add: example_chunk_def)
  from ok s r1 k1 k3 k0 show ?thesis by simp
qed

subsection \<open>Claim C10: the bounds of a slice\<close>

text \<open>
  Claim C10, amended. For every part counter \<open>p \<ge> 0\<close>, granularity \<open>g \<ge> 1\<close> and primary
  sequence of length \<open>n\<close> such that \<open>n\<close> and \<open>(p + 1) * g\<close> fit in an \<^verbatim>\<open>int\<close>, the
  bounds after clamping satisfy \<open>0 \<le> startindex \<le> endindex \<le> n\<close>, and the copy loop
  reads no index outside the sequence: it returns the elements from \<open>startindex\<close> up to
  \<open>endindex\<close>. This covers \<open>n = 0\<close> and \<open>g > n\<close>.
\<close>

theorem slice_bounds_within:
  assumes "0 \<le> p" and "1 \<le> g" and "int (length prims) \<le> INT_MAX"
    and "(p + 1) * g \<le> INT_MAX"
  shows "0 \<le> fst (slice_bounds (length prims) p g) \<and>
         fst (slice_bounds (length prims) p g) \<le> snd (slice_bounds (length prims) p g) \<and>
         snd (slice_bounds (length prims) p g) \<le> int (length prims) \<and>
         copy_loop prims (fst (slice_bounds (length prims) p g))
                         (snd (slice_bounds (length prims) p g)) [] =
           Inr (take (nat (snd (slice_bounds (length prims) p g) -
                           fst (slice_bounds (length prims) p g)))
                  (drop (nat (fst (slice_bounds (length prims) p g))) prims))"
proof -
  have b: "(p + 1) * g \<le> int (length prims) + 2147483648"
    using assms(4) by (simp add: INT_MAX_def)
  have sb: "slice_bounds (length prims) p g =
              (max 0 (int (length prims) - (p + 1) * g), max 0 (int (length prims) - p * g))"
    using assms(1,2,3) b by (rule slice_bounds_exact)
  have pg: "0 \<le> p * g" using assms(1,2) by simp
  have le: "p * g \<le> (p + 1) * g" using assms(2) by (simp add: algebra_simps)
  have 1: "0 \<le> fst (slice_bounds (length prims) p g)" by (simp add: sb)
  have 2: "fst (slice_bounds (length prims) p g) \<le> snd (slice_bounds (length prims) p g)"
    using le by (simp add: sb)
  have 3: "snd (slice_bounds (length prims) p g) \<le> int (length prims)"
    using pg by (simp add: sb)
  from 1 3 have 4: "copy_loop prims (fst (slice_bounds (length prims) p g))
                         (snd (slice_bounds (length prims) p g)) [] =
           Inr ([] @ take (nat (snd (slice_bounds (length prims) p g) -
                           fst (slice_bounds (length prims) p g)))
                  (drop (nat (fst (slice_bounds (length prims) p g))) prims))"
    by (rule copy_loop_slice)
  from 1 2 3 4 show ?thesis by simp
qed

theorem slice_bounds_within_witness:
  "(0::int) \<le> 0 \<and> (1::int) \<le> 500 \<and> int (length ([]::nat list)) \<le> INT_MAX \<and>
   (0 + 1) * 500 \<le> INT_MAX \<and>
   slice_bounds (length ([]::nat list)) 0 500 = (0, 0) \<and>
   copy_loop ([]::nat list) 0 0 [] = Inr []"
  using slice_bounds_within [of 0 500 "[]::nat list"]
  by (simp add: INT_MAX_def prod_eq_iff slice_bounds_def endindex0_def startindex0_def
        to_int32_def to_size_t_def Let_def)

text \<open>
  The claim as stated, for every \<open>n \<ge> 0\<close> and every \<open>p \<ge> 0\<close>, fails. With
  \<open>2 ^ 31\<close> primaries, \<open>p = 0\<close> and \<open>g = 2\<close> the end index does not fit in an
  \<^verbatim>\<open>int\<close>: it is stored as a negative number and clamped to 0, while the start index is
  \<open>2 ^ 31 - 2\<close>, so \<open>startindex > endindex\<close>. With no primaries, \<open>p = 2\<close> and
  \<open>g = 2 ^ 31 - 1\<close> the product \<open>p * g\<close> leaves the range of \<^verbatim>\<open>int\<close>; with the
  wrapped product the end index is 2, beyond the empty sequence.
\<close>

theorem slice_bounds_counterexample:
  "\<not> (fst (slice_bounds 2147483648 0 2) \<le> snd (slice_bounds 2147483648 0 2)) \<and>
   \<not> (snd (slice_bounds 0 2 2147483647) \<le> int 0)"
  by (simp add: slice_bounds_def endindex0_def startindex0_def to_int32_def to_size_t_def Let_def)

end
